theory Spec2Isabelle
  imports Main "HOL-Library.Sublist"
begin

section \<open>Data model (types.ts)\<close>

datatype UserRole = Doctor | Nurse | Admin

text \<open>The identity decoded from the session token and stored in \<^verbatim>\<open>req.user\<close>.\<close>

record identity =
  user_id :: int
  username :: string
  role :: UserRole

record Patient =
  patient_id :: int
  full_name :: string
  date_of_birth :: string
  gender :: string
  phone :: "string option"
  patient_created_at :: int

record Encounter =
  encounter_id :: int
  encounter_patient_id :: int
  clinician_role :: string
  encounter_notes :: "string option"
  encounter_created_at :: int

record Prescription =
  prescription_id :: int
  prescription_encounter_id :: int
  drug_name :: string
  dosage :: string
  frequency :: string
  duration :: string
  created_by :: int
  prescription_created_at :: int

record AuditLog =
  audit_id :: int
  user_role :: UserRole
  action :: string
  entity_type :: string
  entity_id :: "int option"
  timestamp :: int

text \<open>
  The tables reached through the Prisma client. Dates are kept as integers (epoch time);
  a row's position in its list is its insertion order.
\<close>

record database =
  users :: "identity list"
  patients :: "Patient list"
  encounters :: "Encounter list"
  prescriptions :: "Prescription list"
  audit_logs :: "AuditLog list"

section \<open>JavaScript values\<close>

text \<open>
  JSON values. Numbers are integers: the identifiers and timestamps handled by the
  program are integral, and fractional numbers are outside the model.
\<close>

datatype json =
  JNull
  | JBool bool
  | JNum int
  | JStr string
  | JArr "json list"
  | JObj "(string \<times> json) list"

text \<open>
  The result of a JavaScript expression that may also be \<^verbatim>\<open>undefined\<close>,
  \<^verbatim>\<open>NaN\<close> or an infinity (of either sign).
\<close>

datatype jsval = Undefined | NaN | Infinity | Js json

fun truthy :: "jsval \<Rightarrow> bool" where
  "truthy Undefined = False"
| "truthy NaN = False"
| "truthy Infinity = True"
| "truthy (Js JNull) = False"
| "truthy (Js (JBool b)) = b"
| "truthy (Js (JNum n)) = (n \<noteq> 0)"
| "truthy (Js (JStr s)) = (s \<noteq> [])"
| "truthy (Js (JArr xs)) = True"
| "truthy (Js (JObj kvs)) = True"

text \<open>\<^verbatim>\<open>a || null\<close>\<close>

definition or_null :: "jsval \<Rightarrow> jsval" where
  "or_null v = (if truthy v then v else Js JNull)"

text \<open>
  Truthiness of an optional string (a cookie, a path parameter, a query parameter):
  \<^verbatim>\<open>undefined\<close> and the empty string are falsy.
\<close>

fun truthy_str :: "string option \<Rightarrow> bool" where
  "truthy_str None = False"
| "truthy_str (Some s) = (s \<noteq> [])"

text \<open>
  Property access \<^verbatim>\<open>v?.k\<close>: only an object has own data properties. The keys of an
  object are taken to be distinct.
\<close>

fun get_prop :: "string \<Rightarrow> json \<Rightarrow> jsval" where
  "get_prop k (JObj kvs) = (case map_of kvs k of None \<Rightarrow> Undefined | Some v \<Rightarrow> Js v)"
| "get_prop k v = Undefined"

subsection \<open>parseInt\<close>

text \<open>
  Strings are lists of bytes, the UTF-8 encoding of the JavaScript string. The white
  space that \<^verbatim>\<open>parseInt\<close> skips is the ECMAScript \<^verbatim>\<open>WhiteSpace\<close> and
  \<^verbatim>\<open>LineTerminator\<close>: the ASCII characters 9 to 13 and 32, and U+00A0, U+1680,
  U+2000 to U+200A, U+2028, U+2029, U+202F, U+205F, U+3000 and U+FEFF, here in their
  encodings of two or three bytes.
\<close>

definition space1 :: "nat \<Rightarrow> bool" where
  "space1 a = (a \<in> {9, 10, 11, 12, 13, 32})"

definition space2 :: "nat \<Rightarrow> nat \<Rightarrow> bool" where
  "space2 a b = (a = 0xC2 \<and> b = 0xA0)"

definition space3 :: "nat \<Rightarrow> nat \<Rightarrow> nat \<Rightarrow> bool" where
  "space3 a b c =
     (a = 0xE1 \<and> b = 0x9A \<and> c = 0x80
      \<or> a = 0xE2 \<and> b = 0x80 \<and> (0x80 \<le> c \<and> c \<le> 0x8A \<or> c = 0xA8 \<or> c = 0xA9 \<or> c = 0xAF)
      \<or> a = 0xE2 \<and> b = 0x81 \<and> c = 0x9F
      \<or> a = 0xE3 \<and> b = 0x80 \<and> c = 0x80
      \<or> a = 0xEF \<and> b = 0xBB \<and> c = 0xBF)"

fun trim_start :: "string \<Rightarrow> string" where
  "trim_start (a # b # c # r) =
     (if space1 (of_char a) then trim_start (b # c # r)
      else if space2 (of_char a) (of_char b) then trim_start (c # r)
      else if space3 (of_char a) (of_char b) (of_char c) then trim_start r
      else a # b # c # r)"
| "trim_start [a, b] =
     (if space1 (of_char a) then trim_start [b]
      else if space2 (of_char a) (of_char b) then []
      else [a, b])"
| "trim_start [a] = (if space1 (of_char a) then [] else [a])"
| "trim_start [] = []"

definition digit_val :: "char \<Rightarrow> nat option" where
  "digit_val c =
     (let n = of_char c :: nat in
      if 48 \<le> n \<and> n \<le> 57 then Some (n - 48)
      else if 97 \<le> n \<and> n \<le> 122 then Some (n - 87)
      else if 65 \<le> n \<and> n \<le> 90 then Some (n - 55)
      else None)"

definition is_digit :: "nat \<Rightarrow> char \<Rightarrow> bool" where
  "is_digit radix c = (case digit_val c of None \<Rightarrow> False | Some d \<Rightarrow> d < radix)"

definition digit_of :: "char \<Rightarrow> nat" where
  "digit_of c = (case digit_val c of None \<Rightarrow> 0 | Some d \<Rightarrow> d)"

text \<open>
  The Number value of a natural number: itself up to \<open>2\<^sup>5\<^sup>3\<close>, beyond that the nearest
  number with 53 significant bits, a tie going to the even one, and no finite number
  (\<open>None\<close>) from \<open>2\<^sup>1\<^sup>0\<^sup>2\<^sup>4\<close> on. This is how Node.js converts digit strings.
\<close>

function bitlen :: "int \<Rightarrow> nat" where
  "bitlen n = (if n \<le> 0 then 0 else Suc (bitlen (n div 2)))"
  by auto
termination
  by (relation "measure nat") auto

declare bitlen.simps [simp del]

definition to_double :: "int \<Rightarrow> int option" where
  "to_double n =
     (if n < 2 ^ 53 then Some n
      else
        (let k = bitlen n - 53;
             q = n div 2 ^ k;
             r = n mod 2 ^ k;
             q' = (if 2 * r > 2 ^ k \<or> (2 * r = 2 ^ k \<and> odd q) then q + 1 else q);
             m = q' * 2 ^ k
         in if m < 2 ^ 1024 then Some m else None))"

text \<open>
  \<^verbatim>\<open>parseInt(string)\<close> with no radix argument, following ECMAScript: leading white space
  is skipped, a sign is read, a \<^verbatim>\<open>0x\<close> prefix selects radix 16, and the longest prefix
  of digits is converted; with no digit the result is \<^verbatim>\<open>NaN\<close>.
\<close>

definition parseInt :: "string \<Rightarrow> jsval" where
  "parseInt input =
     (let s0 = trim_start input;
          neg = (case s0 of c # r \<Rightarrow> c = CHR ''-'' | [] \<Rightarrow> False);
          s1 = (case s0 of c # r \<Rightarrow> if c = CHR ''+'' \<or> c = CHR ''-'' then r else s0 | [] \<Rightarrow> s0);
          hex = (case s1 of c # d # r \<Rightarrow> c = CHR ''0'' \<and> (d = CHR ''x'' \<or> d = CHR ''X'') | _ \<Rightarrow> False);
          radix = (if hex then 16 else 10);
          s2 = (if hex then drop 2 s1 else s1);
          ds = takeWhile (is_digit radix) s2
      in if ds = [] then NaN
         else (case to_double (foldl (\<lambda>a c. a * int radix + int (digit_of c)) 0 ds) of
                 None \<Rightarrow> Infinity
               | Some m \<Rightarrow> Js (JNum ((if neg then - 1 else 1) * m))))"

text \<open>
  The decimal numeral of an integer, as \<^verbatim>\<open>String(n)\<close> prints it below \<open>10\<^sup>2\<^sup>1\<close>.
  A number \<open>JNum n\<close> is meant within the range in which JavaScript's integers are
  exact, \<open>\<bar>n\<bar> < 2\<^sup>5\<^sup>3\<close>.
\<close>

function digits10 :: "int \<Rightarrow> string" where
  "digits10 n = (if n < 10 then [char_of (48 + n)] else digits10 (n div 10) @ [char_of (48 + n mod 10)])"
  by auto
termination
  by (relation "measure nat") auto

declare digits10.simps [simp del]

definition show_int :: "int \<Rightarrow> string" where
  "show_int n = (if n < 0 then CHR ''-'' # digits10 (- n) else digits10 n)"

fun join :: "string \<Rightarrow> string list \<Rightarrow> string" where
  "join sep [] = []"
| "join sep [x] = x"
| "join sep (x # y # ys) = x @ sep @ join sep (y # ys)"

text \<open>
  \<^verbatim>\<open>String(v)\<close>: inside an array \<^verbatim>\<open>null\<close> prints as the empty string.
\<close>

fun to_string :: "json \<Rightarrow> string" where
  "to_string JNull = ''null''"
| "to_string (JBool b) = (if b then ''true'' else ''false'')"
| "to_string (JNum n) = show_int n"
| "to_string (JStr s) = s"
| "to_string (JArr xs) = join '','' (map (\<lambda>v. if v = JNull then [] else to_string v) xs)"
| "to_string (JObj kvs) = ''[object Object]''"

text \<open>
  \<^verbatim>\<open>parseInt(v)\<close> on any value converts it to a string first; the names of
  \<^verbatim>\<open>undefined\<close>, \<^verbatim>\<open>NaN\<close> and \<^verbatim>\<open>Infinity\<close> have no digit.
\<close>

fun parseInt_val :: "jsval \<Rightarrow> jsval" where
  "parseInt_val (Js v) = parseInt (to_string v)"
| "parseInt_val v = NaN"

section \<open>Requests, responses and the environment\<close>

text \<open>
  What the routes read of a request: the \<^verbatim>\<open>token\<close> cookie, the identity attached by
  the session middleware, the path parameter \<^verbatim>\<open>id\<close>, the query parameter
  \<^verbatim>\<open>search\<close> and the parsed JSON body. The cookie and the query parameter are single
  strings when present.
\<close>

record request =
  cookies_token :: "string option"
  user :: "identity option"
  params_id :: "string option"
  query_search :: "string option"
  body :: json

text \<open>
  The data handed to \<^verbatim>\<open>res.send\<close>. \<open>Serialized v\<close> is the string
  \<^verbatim>\<open>JSON.stringify(v)\<close> that \<^verbatim>\<open>res.json(v)\<close> passes on: its type is string and
  \<^verbatim>\<open>JSON.parse\<close> of it is \<open>v\<close>. \<open>Text s\<close> is any other string. The values
  that are not strings are an object, an array, a boolean, and \<open>Nothing\<close> for
  \<^verbatim>\<open>null\<close> and \<^verbatim>\<open>undefined\<close>, which have no properties. A bare number, which
  Express 4 reads as a status code, and a Buffer are not among the payloads.
\<close>

datatype payload =
  Serialized json
  | Text string
  | Object "(string \<times> json) list"
  | Array "json list"
  | Boolean bool
  | Nothing

text \<open>
  Express's own \<^verbatim>\<open>send\<close> takes a string, \<^verbatim>\<open>null\<close> or \<^verbatim>\<open>undefined\<close> as it
  is; an object, an array or a boolean it hands to \<^verbatim>\<open>this.json\<close>.
\<close>

fun passed_to_json :: "payload \<Rightarrow> json option" where
  "passed_to_json (Object kvs) = Some (JObj kvs)"
| "passed_to_json (Array xs) = Some (JArr xs)"
| "passed_to_json (Boolean b) = Some (JBool b)"
| "passed_to_json data = None"

datatype db_op =
  PatientCreate | PatientFindMany | PatientFindUnique
  | EncounterCreate | EncounterFindUnique | EncounterFindMany
  | PrescriptionCreate | AuditLogCreate | AuditLogFindMany

datatype schema = LoginSchema | PatientSchema | EncounterSchema | PrescriptionSchema

text \<open>
  What the program takes from its libraries and its surroundings:
  \<^item> \<open>jwt_verify\<close>: \<^verbatim>\<open>jwt.verify(token, JWT_SECRET, cb)\<close>, \<open>None\<close> when the callback
    receives an error;
  \<^item> \<open>JSON_parse\<close>: \<^verbatim>\<open>JSON.parse\<close>, \<open>None\<close> when it throws;
  \<^item> \<open>joi\<close>: the messages of \<^verbatim>\<open>schema.validate(body, {abortEarly: false}).error.details\<close>,
    empty when there is no error;
  \<^item> \<open>db_fault\<close>: whether a call of the Prisma client fails for a reason that the
    arguments modelled here do not show (the store is down, a value does not fit its
    column, a constraint is violated);
  \<^item> \<open>pg_lower\<close>: the store's \<^verbatim>\<open>lower\<close> function, which depends on its locale;
  \<^item> \<open>now\<close>: the clock the store stamps new rows with.
\<close>

record env =
  jwt_verify :: "string \<Rightarrow> identity option"
  JSON_parse :: "string \<Rightarrow> json option"
  joi :: "schema \<Rightarrow> json \<Rightarrow> string list"
  db_fault :: "db_op \<Rightarrow> bool"
  pg_lower :: "string \<Rightarrow> string"
  now :: int

text \<open>
  A request in flight: the request object, the response object (its status code, the
  audit wrappers installed on \<^verbatim>\<open>res.send\<close>, most recent first, and the data with which
  Express's own \<^verbatim>\<open>send\<close> has been called, in the order of the calls), the store and
  the lines written with \<^verbatim>\<open>console.error\<close>.
\<close>

record exchange =
  req :: request
  statusCode :: nat
  send_wrappers :: "(string \<times> string) list"
  sent :: "payload list"
  db :: database
  console :: "string list"

datatype 'a outcome = Next 'a | Done 'a

section \<open>The audit recorder (auth.ts, auditLog)\<close>

datatype exn = SyntaxError | PrismaError

text \<open>
  \<^verbatim>\<open>prisma.auditLog.create\<close>: the column \<open>entity_id\<close> is an optional integer
  (types.ts), so the client accepts \<^verbatim>\<open>null\<close> or a number and rejects anything else;
  the store assigns the identifier and the timestamp.
\<close>

definition next_id :: "int list \<Rightarrow> int" where
  "next_id ids = foldr max ids 0 + 1"

definition auditLog_create ::
  "env \<Rightarrow> UserRole \<Rightarrow> string \<Rightarrow> string \<Rightarrow> jsval \<Rightarrow> database \<Rightarrow> exn + database" where
  "auditLog_create e r a t eid d =
     (if db_fault e AuditLogCreate then Inl PrismaError
      else case eid of
        Js JNull \<Rightarrow> Inr (d\<lparr>audit_logs := audit_logs d @
          [\<lparr>audit_id = next_id (map audit_id (audit_logs d)), user_role = r, action = a,
            entity_type = t, entity_id = None, timestamp = now e\<rparr>]\<rparr>)
      | Js (JNum n) \<Rightarrow> Inr (d\<lparr>audit_logs := audit_logs d @
          [\<lparr>audit_id = next_id (map audit_id (audit_logs d)), user_role = r, action = a,
            entity_type = t, entity_id = Some n, timestamp = now e\<rparr>]\<rparr>)
      | _ \<Rightarrow> Inl PrismaError)"

text \<open>\<^verbatim>\<open>typeof data === 'string' ? JSON.parse(data) : data\<close>\<close>

definition parsedData :: "env \<Rightarrow> payload \<Rightarrow> exn + json" where
  "parsedData e data =
     (case data of
        Serialized v \<Rightarrow> Inr v
      | Text s \<Rightarrow> (case JSON_parse e s of None \<Rightarrow> Inl SyntaxError | Some v \<Rightarrow> Inr v)
      | Object kvs \<Rightarrow> Inr (JObj kvs)
      | Array xs \<Rightarrow> Inr (JArr xs)
      | Boolean b \<Rightarrow> Inr (JBool b)
      | Nothing \<Rightarrow> Inr JNull)"

text \<open>\<^verbatim>\<open>req.params.id ? parseInt(req.params.id) : parsedData?.id\<close>\<close>

definition entityId :: "request \<Rightarrow> json \<Rightarrow> jsval" where
  "entityId rq pd =
     (case params_id rq of
        Some s \<Rightarrow>
          if s \<noteq> [] then parseInt s
          else get_prop ''id'' pd
      | None \<Rightarrow> get_prop ''id'' pd)"

text \<open>
  The \<^verbatim>\<open>try\<close> block for an attached identity \<open>u\<close>: an exception of
  \<^verbatim>\<open>JSON.parse\<close> leaves it at once; a rejected \<^verbatim>\<open>create\<close> goes to the promise's
  \<^verbatim>\<open>catch\<close>. Both end in a line of \<^verbatim>\<open>console.error\<close>. The write is not awaited
  in the source; the model performs it in place.
\<close>

definition audit_try :: "env \<Rightarrow> string \<Rightarrow> string \<Rightarrow> identity \<Rightarrow> payload \<Rightarrow> exchange \<Rightarrow> exchange" where
  "audit_try e a t u data x =
     (case parsedData e data of
        Inl err \<Rightarrow> x\<lparr>console := console x @ [''Error in audit log middleware:'']\<rparr>
      | Inr pd \<Rightarrow>
          (case auditLog_create e (role u) a t (or_null (entityId (req x) pd)) (db x) of
             Inl err \<Rightarrow> x\<lparr>console := console x @ [''Audit log error:'']\<rparr>
           | Inr d \<Rightarrow> x\<lparr>db := d\<rparr>))"

text \<open>The part of the replaced \<^verbatim>\<open>res.send\<close> that runs before the original one.\<close>

definition audit_on_send :: "env \<Rightarrow> string \<Rightarrow> string \<Rightarrow> payload \<Rightarrow> exchange \<Rightarrow> exchange" where
  "audit_on_send e a t data x =
     (if 200 \<le> statusCode x \<and> statusCode x < 300 then
        (case user (req x) of
           Some u \<Rightarrow> audit_try e a t u data x
         | None \<Rightarrow> x)
      else x)"

text \<open>
  The audit steps of the installed wrappers, the most recent first: each wrapper runs
  its step and then calls the \<^verbatim>\<open>send\<close> it replaced.
\<close>

fun audit_steps :: "env \<Rightarrow> (string \<times> string) list \<Rightarrow> payload \<Rightarrow> exchange \<Rightarrow> exchange" where
  "audit_steps e [] data x = x"
| "audit_steps e ((a, t) # ws) data x = audit_steps e ws data (audit_on_send e a t data x)"

text \<open>
  Calling \<^verbatim>\<open>res.send(data)\<close>: after the audit steps Express's own \<^verbatim>\<open>send\<close> is
  called with the data. A string, \<^verbatim>\<open>null\<close> or \<^verbatim>\<open>undefined\<close> ends there. A value
  that goes to \<^verbatim>\<open>this.json\<close> is serialised and passed to \<^verbatim>\<open>this.send\<close>, which is
  the replaced \<^verbatim>\<open>send\<close>: the audit steps run a second time, on the string, before
  Express's \<^verbatim>\<open>send\<close> takes the string.
\<close>

definition res_send :: "env \<Rightarrow> payload \<Rightarrow> exchange \<Rightarrow> exchange" where
  "res_send e data x =
     (let x1 = audit_steps e (send_wrappers x) data x;
          x2 = x1\<lparr>sent := sent x1 @ [data]\<rparr>
      in case passed_to_json data of
           None \<Rightarrow> x2
         | Some v \<Rightarrow>
             (let x3 = audit_steps e (send_wrappers x2) (Serialized v) x2
              in x3\<lparr>sent := sent x3 @ [Serialized v]\<rparr>))"

text \<open>
  \<^verbatim>\<open>res.status(code)\<close> and \<^verbatim>\<open>res.json(v)\<close>, which calls \<^verbatim>\<open>this.send\<close> with
  the serialised value.
\<close>

definition res_status :: "nat \<Rightarrow> exchange \<Rightarrow> exchange" where
  "res_status code x = x\<lparr>statusCode := code\<rparr>"

definition res_json :: "env \<Rightarrow> json \<Rightarrow> exchange \<Rightarrow> exchange" where
  "res_json e v x = res_send e (Serialized v) x"

definition error_body :: "string \<Rightarrow> json" where
  "error_body msg = JObj [(''error'', JStr msg)]"

text \<open>The middleware itself replaces \<^verbatim>\<open>res.send\<close> and calls \<^verbatim>\<open>next()\<close>.\<close>

definition auditLog :: "string \<Rightarrow> string \<Rightarrow> env \<Rightarrow> exchange \<Rightarrow> exchange outcome" where
  "auditLog a t e x = Next (x\<lparr>send_wrappers := (a, t) # send_wrappers x\<rparr>)"

section \<open>Session middleware and role gate (auth.ts)\<close>

definition authenticateToken :: "env \<Rightarrow> exchange \<Rightarrow> exchange outcome" where
  "authenticateToken e x =
     (if \<not> truthy_str (cookies_token (req x)) then
        Done (res_json e (error_body ''Access token required'') (res_status 401 x))
      else
        (case jwt_verify e (the (cookies_token (req x))) of
           None \<Rightarrow> Done (res_json e (error_body ''Invalid token'') (res_status 403 x))
         | Some u \<Rightarrow> Next (x\<lparr>req := (req x)\<lparr>user := Some u\<rparr>\<rparr>)))"

definition requireRole :: "UserRole list \<Rightarrow> env \<Rightarrow> exchange \<Rightarrow> exchange outcome" where
  "requireRole roles e x =
     (case user (req x) of
        None \<Rightarrow> Done (res_json e (error_body ''Insufficient permissions'') (res_status 403 x))
      | Some u \<Rightarrow>
          if role u \<notin> set roles then
            Done (res_json e (error_body ''Insufficient permissions'') (res_status 403 x))
          else Next x)"

section \<open>Input validation (validation.ts)\<close>

text \<open>
  The schemas are Joi objects; what Joi makes of a body is taken from the environment.
\<close>

definition validate :: "schema \<Rightarrow> env \<Rightarrow> exchange \<Rightarrow> exchange outcome" where
  "validate sc e x =
     (case joi e sc (body (req x)) of
        [] \<Rightarrow> Next x
      | m # ms \<Rightarrow> Done (res_json e (error_body (join '', '' (m # ms))) (res_status 400 x)))"

section \<open>The store (calls of the Prisma client)\<close>

text \<open>
  Every call either is rejected (\<open>Inl\<close>) or returns its result. A key that is not an
  integer (\<^verbatim>\<open>NaN\<close>, an infinity) and a row with a field of the wrong type are
  rejected by the client. Identifiers are unbounded integers: the width of the store's
  columns is not part of the model, and a rejection by the store is a fault of the
  environment. A new row gets the next identifier and the time of the clock.
\<close>

fun int_key :: "jsval \<Rightarrow> int option" where
  "int_key (Js (JNum n)) = Some n"
| "int_key v = None"

definition patient_findUnique :: "env \<Rightarrow> jsval \<Rightarrow> database \<Rightarrow> exn + Patient option" where
  "patient_findUnique e k d =
     (if db_fault e PatientFindUnique then Inl PrismaError
      else case int_key k of
        None \<Rightarrow> Inl PrismaError
      | Some i \<Rightarrow> Inr (find (\<lambda>p. patient_id p = i) (patients d)))"

definition encounter_findUnique :: "env \<Rightarrow> jsval \<Rightarrow> database \<Rightarrow> exn + Encounter option" where
  "encounter_findUnique e k d =
     (if db_fault e EncounterFindUnique then Inl PrismaError
      else case int_key k of
        None \<Rightarrow> Inl PrismaError
      | Some i \<Rightarrow> Inr (find (\<lambda>c. encounter_id c = i) (encounters d)))"

fun opt_string :: "jsval \<Rightarrow> string option option" where
  "opt_string Undefined = Some None"
| "opt_string (Js JNull) = Some None"
| "opt_string (Js (JStr s)) = Some (Some s)"
| "opt_string v = None"

fun req_string :: "jsval \<Rightarrow> string option" where
  "req_string (Js (JStr s)) = Some s"
| "req_string v = None"

definition patient_create ::
  "env \<Rightarrow> jsval \<Rightarrow> jsval \<Rightarrow> jsval \<Rightarrow> jsval \<Rightarrow> database \<Rightarrow> exn + (Patient \<times> database)" where
  "patient_create e name dob gen ph d =
     (if db_fault e PatientCreate then Inl PrismaError
      else case (req_string name, req_string dob, req_string gen, opt_string ph) of
        (Some n, Some b, Some g, Some p) \<Rightarrow>
          (let row = \<lparr>patient_id = next_id (map patient_id (patients d)), full_name = n,
                       date_of_birth = b, gender = g, phone = p, patient_created_at = now e\<rparr>
           in Inr (row, d\<lparr>patients := patients d @ [row]\<rparr>))
      | _ \<Rightarrow> Inl PrismaError)"

definition encounter_create ::
  "env \<Rightarrow> jsval \<Rightarrow> jsval \<Rightarrow> jsval \<Rightarrow> database \<Rightarrow> exn + (Encounter \<times> database)" where
  "encounter_create e pid crole nts d =
     (if db_fault e EncounterCreate then Inl PrismaError
      else case (int_key pid, req_string crole, opt_string nts) of
        (Some k, Some r, Some n) \<Rightarrow>
          if k \<in> set (map patient_id (patients d)) then
            (let row = \<lparr>encounter_id = next_id (map encounter_id (encounters d)),
                         encounter_patient_id = k, clinician_role = r, encounter_notes = n,
                         encounter_created_at = now e\<rparr>
             in Inr (row, d\<lparr>encounters := encounters d @ [row]\<rparr>))
          else Inl PrismaError
      | _ \<Rightarrow> Inl PrismaError)"

definition prescription_create ::
  "env \<Rightarrow> jsval \<Rightarrow> jsval \<Rightarrow> jsval \<Rightarrow> jsval \<Rightarrow> jsval \<Rightarrow> int \<Rightarrow> database
     \<Rightarrow> exn + (Prescription \<times> database)" where
  "prescription_create e eid drug dos freq dur creator d =
     (if db_fault e PrescriptionCreate then Inl PrismaError
      else case (int_key eid, req_string drug, req_string dos, req_string freq, req_string dur) of
        (Some k, Some dn, Some ds, Some fr, Some du) \<Rightarrow>
          if k \<in> set (map encounter_id (encounters d)) \<and> creator \<in> set (map user_id (users d)) then
            (let row = \<lparr>prescription_id = next_id (map prescription_id (prescriptions d)),
                         prescription_encounter_id = k, drug_name = dn, dosage = ds,
                         frequency = fr, duration = du, created_by = creator,
                         prescription_created_at = now e\<rparr>
             in Inr (row, d\<lparr>prescriptions := prescriptions d @ [row]\<rparr>))
          else Inl PrismaError
      | _ \<Rightarrow> Inl PrismaError)"

subsection \<open>Patient search\<close>

text \<open>
  \<^verbatim>\<open>contains\<close> becomes \<^verbatim>\<open>LIKE\<close> with the pattern \<^verbatim>\<open>%search%\<close>, and
  \<^verbatim>\<open>ILIKE\<close> with \<^verbatim>\<open>mode: 'insensitive'\<close>. The client does not escape the search
  string, so in it \<^verbatim>\<open>%\<close> stands for any sequence of characters, \<^verbatim>\<open>_\<close> for any one
  character, and a backslash takes the next character literally (a pattern ending in a
  backslash matches nothing: the store rejects it). One character is a byte that starts
  it and the continuation bytes after it.
\<close>

definition continuation :: "char \<Rightarrow> bool" where
  "continuation c = (128 \<le> (of_char c :: nat) \<and> (of_char c :: nat) < 192)"

function like :: "string \<Rightarrow> string \<Rightarrow> bool" where
  "like t [] = (t = [])"
| "like [] (p # ps) = (p = CHR ''%'' \<and> like [] ps)"
| "like (c # cs) (p # ps) =
     (if p = CHR ''%'' then like (c # cs) ps \<or> like cs (p # ps)
      else if p = CHR ''_'' then like (dropWhile continuation cs) ps
      else if p = CHR 0x5C then (case ps of [] \<Rightarrow> False | q # qs \<Rightarrow> c = q \<and> like cs qs)
      else c = p \<and> like cs ps)"
  by pat_completeness auto
termination
  by (relation "measures [\<lambda>(t, p). length p, \<lambda>(t, p). length t]") auto

text \<open>
  \<^verbatim>\<open>ILIKE\<close> lowers the text and the pattern with the store's \<^verbatim>\<open>lower\<close> and then
  matches as \<^verbatim>\<open>LIKE\<close> does.
\<close>

definition ilike :: "env \<Rightarrow> string \<Rightarrow> string \<Rightarrow> bool" where
  "ilike e t p = like (pg_lower e t) (pg_lower e p)"

text \<open>
  The \<^verbatim>\<open>where\<close> clause of the patient list: \<^verbatim>\<open>full_name\<close> carries
  \<^verbatim>\<open>mode: 'insensitive'\<close>, \<^verbatim>\<open>phone\<close> does not; no filter when \<^verbatim>\<open>search\<close> is falsy.
  A missing phone matches nothing.
\<close>

definition patient_where :: "env \<Rightarrow> string option \<Rightarrow> Patient \<Rightarrow> bool" where
  "patient_where e search p =
     (if truthy_str search then
        ilike e (full_name p) (''%'' @ the search @ ''%'')
        \<or> (case phone p of None \<Rightarrow> False | Some ph \<Rightarrow> like ph (''%'' @ the search @ ''%''))
      else True)"

definition patient_findMany :: "env \<Rightarrow> string option \<Rightarrow> database \<Rightarrow> exn + Patient list" where
  "patient_findMany e search d =
     (if db_fault e PatientFindMany then Inl PrismaError
      else Inr (take 50 (sort_key (\<lambda>p. - patient_created_at p)
                  (filter (patient_where e search) (patients d)))))"

definition auditLog_findMany :: "env \<Rightarrow> database \<Rightarrow> exn + AuditLog list" where
  "auditLog_findMany e d =
     (if db_fault e AuditLogFindMany then Inl PrismaError
      else Inr (take 100 (sort_key (\<lambda>l. - timestamp l) (audit_logs d))))"

text \<open>
  The encounters of a patient, newest first, each with its prescriptions, newest first,
  each with its creator.
\<close>

definition encounter_findMany ::
  "env \<Rightarrow> int \<Rightarrow> database \<Rightarrow> exn + (Encounter \<times> (Prescription \<times> identity option) list) list" where
  "encounter_findMany e k d =
     (if db_fault e EncounterFindMany then Inl PrismaError
      else Inr (map (\<lambda>c. (c, map (\<lambda>p. (p, find (\<lambda>u. user_id u = created_by p) (users d)))
                              (sort_key (\<lambda>p. - prescription_created_at p)
                                 (filter (\<lambda>p. prescription_encounter_id p = encounter_id c)
                                    (prescriptions d)))))
                  (sort_key (\<lambda>c. - encounter_created_at c)
                     (filter (\<lambda>c. encounter_patient_id c = k) (encounters d)))))"

section \<open>Response bodies\<close>

fun json_opt :: "string option \<Rightarrow> json" where
  "json_opt None = JNull"
| "json_opt (Some s) = JStr s"

fun role_name :: "UserRole \<Rightarrow> string" where
  "role_name Doctor = ''doctor''"
| "role_name Nurse = ''nurse''"
| "role_name Admin = ''admin''"

definition patient_json :: "Patient \<Rightarrow> json" where
  "patient_json p = JObj
     [(''id'', JNum (patient_id p)), (''full_name'', JStr (full_name p)),
      (''date_of_birth'', JStr (date_of_birth p)), (''gender'', JStr (gender p)),
      (''phone'', json_opt (phone p)), (''created_at'', JNum (patient_created_at p))]"

definition encounter_json :: "Encounter \<Rightarrow> json" where
  "encounter_json c = JObj
     [(''id'', JNum (encounter_id c)), (''patient_id'', JNum (encounter_patient_id c)),
      (''clinician_role'', JStr (clinician_role c)), (''notes'', json_opt (encounter_notes c)),
      (''created_at'', JNum (encounter_created_at c))]"

text \<open>
  \<^verbatim>\<open>{...p, prescribed_by: p.creator.username}\<close>; reading \<^verbatim>\<open>username\<close> of a missing
  creator raises.
\<close>

definition prescription_json :: "Prescription \<times> identity option \<Rightarrow> json option" where
  "prescription_json pc =
     (case snd pc of
        None \<Rightarrow> None
      | Some u \<Rightarrow> Some (JObj
          [(''id'', JNum (prescription_id (fst pc))),
           (''encounter_id'', JNum (prescription_encounter_id (fst pc))),
           (''drug_name'', JStr (drug_name (fst pc))), (''dosage'', JStr (dosage (fst pc))),
           (''frequency'', JStr (frequency (fst pc))), (''duration'', JStr (duration (fst pc))),
           (''created_by'', JNum (created_by (fst pc))),
           (''created_at'', JNum (prescription_created_at (fst pc))),
           (''creator'', JObj [(''username'', JStr (username u))]),
           (''prescribed_by'', JStr (username u))]))"

definition audit_json :: "AuditLog \<Rightarrow> json" where
  "audit_json l = JObj
     [(''id'', JNum (audit_id l)), (''user_role'', JStr (role_name (user_role l))),
      (''action'', JStr (action l)), (''entity_type'', JStr (entity_type l)),
      (''entity_id'', (case entity_id l of None \<Rightarrow> JNull | Some n \<Rightarrow> JNum n)),
      (''timestamp'', JNum (timestamp l))]"

fun sequence :: "'a option list \<Rightarrow> 'a list option" where
  "sequence [] = Some []"
| "sequence (None # xs) = None"
| "sequence (Some x # xs) = (case sequence xs of None \<Rightarrow> None | Some ys \<Rightarrow> Some (x # ys))"

definition records_json ::
  "Patient \<Rightarrow> (Encounter \<times> (Prescription \<times> identity option) list) list \<Rightarrow> json option" where
  "records_json p encs =
     (case sequence (concat (map (\<lambda>c. map prescription_json (snd c)) encs)) of
        None \<Rightarrow> None
      | Some ps \<Rightarrow> Some (JObj
          [(''patient'', patient_json p), (''encounters'', JArr (map (\<lambda>c. encounter_json (fst c)) encs)),
           (''prescriptions'', JArr ps)]))"

definition created_json :: "int \<Rightarrow> string \<Rightarrow> json" where
  "created_json i msg = JObj [(''id'', JNum i), (''message'', JStr msg)]"

section \<open>Route handlers and routes\<close>

text \<open>
  The \<^verbatim>\<open>catch\<close> block shared by the handlers: the error is logged and the response is
  500 with a generic body.
\<close>

definition database_error :: "env \<Rightarrow> exchange \<Rightarrow> exchange" where
  "database_error e x =
     res_json e (error_body ''Database error'')
       (res_status 500 (x\<lparr>console := console x @ [''error'']\<rparr>))"

text \<open>\<^verbatim>\<open>req.params.id\<close> as a value\<close>

fun param_val :: "string option \<Rightarrow> jsval" where
  "param_val None = Undefined"
| "param_val (Some s) = Js (JStr s)"

definition post_patients :: "env \<Rightarrow> exchange \<Rightarrow> exchange outcome" where
  "post_patients e x = Done
     (let b = body (req x) in
      case patient_create e (get_prop ''full_name'' b) (get_prop ''date_of_birth'' b)
             (get_prop ''gender'' b) (get_prop ''phone'' b) (db x) of
        Inl err \<Rightarrow> database_error e x
      | Inr (p, d) \<Rightarrow>
          res_json e (created_json (patient_id p) ''Patient created successfully'')
            (res_status 201 (x\<lparr>db := d\<rparr>)))"

definition get_patients :: "env \<Rightarrow> exchange \<Rightarrow> exchange outcome" where
  "get_patients e x = Done
     (case patient_findMany e (query_search (req x)) (db x) of
        Inl err \<Rightarrow> database_error e x
      | Inr rows \<Rightarrow> res_json e (JArr (map patient_json rows)) x)"

definition get_patient :: "env \<Rightarrow> exchange \<Rightarrow> exchange outcome" where
  "get_patient e x = Done
     (case patient_findUnique e (parseInt_val (param_val (params_id (req x)))) (db x) of
        Inl err \<Rightarrow> database_error e x
      | Inr None \<Rightarrow> res_json e (error_body ''Patient not found'') (res_status 404 x)
      | Inr (Some p) \<Rightarrow> res_json e (patient_json p) x)"

definition post_encounters :: "env \<Rightarrow> exchange \<Rightarrow> exchange outcome" where
  "post_encounters e x = Done
     (let b = body (req x) in
      case patient_findUnique e (parseInt_val (get_prop ''patient_id'' b)) (db x) of
        Inl err \<Rightarrow> database_error e x
      | Inr None \<Rightarrow> res_json e (error_body ''Patient not found'') (res_status 404 x)
      | Inr (Some p) \<Rightarrow>
          (case encounter_create e (parseInt_val (get_prop ''patient_id'' b))
                  (get_prop ''clinician_role'' b) (get_prop ''notes'' b) (db x) of
             Inl err \<Rightarrow> database_error e x
           | Inr (c, d) \<Rightarrow>
               res_json e (created_json (encounter_id c) ''Encounter created successfully'')
                 (res_status 201 (x\<lparr>db := d\<rparr>))))"

definition post_prescriptions :: "env \<Rightarrow> exchange \<Rightarrow> exchange outcome" where
  "post_prescriptions e x = Done
     (let b = body (req x) in
      case encounter_findUnique e (parseInt_val (get_prop ''encounter_id'' b)) (db x) of
        Inl err \<Rightarrow> database_error e x
      | Inr None \<Rightarrow> res_json e (error_body ''Encounter not found'') (res_status 404 x)
      | Inr (Some c) \<Rightarrow>
          (case user (req x) of
             None \<Rightarrow> database_error e x
           | Some u \<Rightarrow>
               (case prescription_create e (parseInt_val (get_prop ''encounter_id'' b))
                       (get_prop ''drug_name'' b) (get_prop ''dosage'' b)
                       (get_prop ''frequency'' b) (get_prop ''duration'' b) (user_id u) (db x) of
                  Inl err \<Rightarrow> database_error e x
                | Inr (p, d) \<Rightarrow>
                    res_json e
                      (created_json (prescription_id p) ''Prescription created successfully'')
                      (res_status 201 (x\<lparr>db := d\<rparr>)))))"

definition get_patient_records :: "env \<Rightarrow> exchange \<Rightarrow> exchange outcome" where
  "get_patient_records e x = Done
     (case patient_findUnique e (parseInt_val (param_val (params_id (req x)))) (db x) of
        Inl err \<Rightarrow> database_error e x
      | Inr None \<Rightarrow> res_json e (error_body ''Patient not found'') (res_status 404 x)
      | Inr (Some p) \<Rightarrow>
          (case encounter_findMany e (patient_id p) (db x) of
             Inl err \<Rightarrow> database_error e x
           | Inr encs \<Rightarrow>
               (case records_json p encs of
                  None \<Rightarrow> database_error e x
                | Some records \<Rightarrow> res_json e records x)))"

definition get_audit_logs :: "env \<Rightarrow> exchange \<Rightarrow> exchange outcome" where
  "get_audit_logs e x = Done
     (case auditLog_findMany e (db x) of
        Inl err \<Rightarrow> database_error e x
      | Inr rows \<Rightarrow> res_json e (JArr (map audit_json rows)) x)"

datatype route =
  PostPatients | GetPatients | GetPatient | PostEncounters | PostPrescriptions
  | GetPatientRecords | GetAuditLogs

text \<open>
  The middleware of each protected route, in the order of its registration. What is
  installed for all routes before them (cookie and body parsing, headers, rate limit)
  is not modelled: a request is taken as it reaches the route.
\<close>

fun chain :: "route \<Rightarrow> (env \<Rightarrow> exchange \<Rightarrow> exchange outcome) list" where
  "chain PostPatients =
     [authenticateToken, requireRole [Doctor, Nurse, Admin], validate PatientSchema,
      auditLog ''CREATE'' ''patient'', post_patients]"
| "chain GetPatients =
     [authenticateToken, requireRole [Doctor, Nurse, Admin], get_patients]"
| "chain GetPatient =
     [authenticateToken, requireRole [Doctor, Nurse, Admin],
      auditLog ''READ'' ''patient'', get_patient]"
| "chain PostEncounters =
     [authenticateToken, requireRole [Doctor, Nurse], validate EncounterSchema,
      auditLog ''CREATE'' ''encounter'', post_encounters]"
| "chain PostPrescriptions =
     [authenticateToken, requireRole [Doctor], validate PrescriptionSchema,
      auditLog ''CREATE'' ''prescription'', post_prescriptions]"
| "chain GetPatientRecords =
     [authenticateToken, requireRole [Doctor, Nurse, Admin],
      auditLog ''READ'' ''patient_records'', get_patient_records]"
| "chain GetAuditLogs =
     [authenticateToken, requireRole [Admin], get_audit_logs]"

text \<open>Express runs the list until one element does not call \<^verbatim>\<open>next()\<close>.\<close>

fun run_chain :: "env \<Rightarrow> (env \<Rightarrow> exchange \<Rightarrow> exchange outcome) list \<Rightarrow> exchange \<Rightarrow> exchange" where
  "run_chain e [] x = x"
| "run_chain e (m # ms) x = (case m e x of Next x' \<Rightarrow> run_chain e ms x' | Done x' \<Rightarrow> x')"

text \<open>
  A request as it reaches a route: no identity yet, status 200, the original
  \<^verbatim>\<open>send\<close>, nothing sent. Only the routes with \<^verbatim>\<open>:id\<close> in their path have the
  parameter.
\<close>

fun has_id_param :: "route \<Rightarrow> bool" where
  "has_id_param GetPatient = True"
| "has_id_param GetPatientRecords = True"
| "has_id_param r = False"

definition incoming :: "route \<Rightarrow> request \<Rightarrow> database \<Rightarrow> exchange" where
  "incoming r rq d =
     \<lparr>req = rq\<lparr>user := None, params_id := (if has_id_param r then params_id rq else None)\<rparr>,
      statusCode = 200, send_wrappers = [], sent = [], db = d, console = []\<rparr>"

definition serve :: "env \<Rightarrow> route \<Rightarrow> request \<Rightarrow> database \<Rightarrow> exchange" where
  "serve e r rq d = run_chain e (chain r) (incoming r rq d)"

text \<open>Reading the result of a middleware.\<close>

fun calls_next :: "'a outcome \<Rightarrow> bool" where
  "calls_next (Next x) = True"
| "calls_next (Done x) = False"

fun result :: "'a outcome \<Rightarrow> 'a" where
  "result (Next x) = x"
| "result (Done x) = x"

text \<open>A handler that writes to the response several times.\<close>

fun send_all :: "env \<Rightarrow> payload list \<Rightarrow> exchange \<Rightarrow> exchange" where
  "send_all e [] x = x"
| "send_all e (data # ds) x = send_all e ds (res_send e data x)"

section \<open>Notions used in the statements\<close>

text \<open>
  The audit step goes through: the body parses, the store takes the write, and the
  derived identifier is \<^verbatim>\<open>null\<close> or a number.
\<close>

definition recordable :: "env \<Rightarrow> request \<Rightarrow> payload \<Rightarrow> bool" where
  "recordable e rq data =
     (\<not> db_fault e AuditLogCreate
      \<and> (case parsedData e data of
           Inl err \<Rightarrow> False
         | Inr pd \<Rightarrow> (case or_null (entityId rq pd) of
                        Js JNull \<Rightarrow> True | Js (JNum n) \<Rightarrow> True | _ \<Rightarrow> False)))"

text \<open>
  The entity identifier as the description of the recorder words it, with the zero case
  made explicit: the integer of the path parameter when there is one and it is a nonzero
  number, else nothing; without a path parameter the numeric nonzero \<^verbatim>\<open>id\<close> of the
  body, else nothing.
\<close>

definition spec_entity_id :: "request \<Rightarrow> json \<Rightarrow> int option" where
  "spec_entity_id rq pd =
     (if truthy_str (params_id rq) then
        (case parseInt (the (params_id rq)) of
           Js (JNum n) \<Rightarrow> if n = 0 then None else Some n
         | _ \<Rightarrow> None)
      else
        (case get_prop ''id'' pd of
           Js (JNum n) \<Rightarrow> if n = 0 then None else Some n
         | _ \<Rightarrow> None))"

text \<open>
  How often one call of \<^verbatim>\<open>res.send\<close> goes through the replaced \<^verbatim>\<open>send\<close>: once
  for a string, \<^verbatim>\<open>null\<close> or \<^verbatim>\<open>undefined\<close>, twice for a value that Express hands
  to \<^verbatim>\<open>this.json\<close>.
\<close>

definition passes :: "payload \<Rightarrow> nat" where
  "passes data = (case passed_to_json data of None \<Rightarrow> 1 | Some v \<Rightarrow> 2)"

text \<open>The entry that an audit step adds to the entries \<open>logs\<close>.\<close>

definition audit_entry ::
  "env \<Rightarrow> string \<Rightarrow> string \<Rightarrow> UserRole \<Rightarrow> int option \<Rightarrow> AuditLog list \<Rightarrow> AuditLog" where
  "audit_entry e a t r i logs =
     \<lparr>audit_id = next_id (map audit_id logs), user_role = r, action = a, entity_type = t,
      entity_id = i, timestamp = now e\<rparr>"

text \<open>
  The entries that one call of \<^verbatim>\<open>res.send\<close> adds through a single recorder: none
  unless the status is a success, an identity is attached and the step goes through, else
  one for each pass.
\<close>

definition recorded :: "env \<Rightarrow> string \<Rightarrow> string \<Rightarrow> payload \<Rightarrow> exchange \<Rightarrow> AuditLog list" where
  "recorded e a t data x =
     (if 200 \<le> statusCode x \<and> statusCode x < 300 \<and> user (req x) \<noteq> None
         \<and> recordable e (req x) data then
        (let r = role (the (user (req x)));
             i = spec_entity_id (req x) (projr (parsedData e data));
             first = audit_entry e a t r i (audit_logs (db x))
         in if passed_to_json data = None then [first]
            else [first, audit_entry e a t r i (audit_logs (db x) @ [first])])
      else [])"

text \<open>
  Containing a string, literally and with the ASCII letters folded: the words in which
  the patient search is described.
\<close>

fun contains :: "string \<Rightarrow> string \<Rightarrow> bool" where
  "contains [] sub = (sub = [])"
| "contains (c # cs) sub = (prefix sub (c # cs) \<or> contains cs sub)"

definition ascii_lower :: "char \<Rightarrow> char" where
  "ascii_lower c = (let n = of_char c :: nat in if 65 \<le> n \<and> n \<le> 90 then char_of (n + 32) else c)"

definition icontains :: "string \<Rightarrow> string \<Rightarrow> bool" where
  "icontains s sub = contains (map ascii_lower s) (map ascii_lower sub)"

text \<open>A search string in which no character has a special meaning for \<^verbatim>\<open>LIKE\<close>.\<close>

definition plain :: "string \<Rightarrow> bool" where
  "plain s = (CHR ''%'' \<notin> set s \<and> CHR ''_'' \<notin> set s \<and> CHR 0x5C \<notin> set s)"

text \<open>
  The four ways in which a handler behind an audit recorder ends: the \<^verbatim>\<open>catch\<close>
  block, a 404, a 201 carrying the new identifier after a write that leaves the audit
  table alone, on a route without path parameter, or a plain \<^verbatim>\<open>res.json\<close> on a route
  whose path parameter parses to an integer.
\<close>

inductive handler_result :: "env \<Rightarrow> exchange \<Rightarrow> exchange \<Rightarrow> bool" for e x where
  failed: "handler_result e x (database_error e x)"
| missing: "handler_result e x (res_json e v (res_status 404 x))"
| created: "audit_logs d = audit_logs (db x) \<Longrightarrow> get_prop ''id'' v = Js (JNum i) \<Longrightarrow>
     params_id (req x) = None \<Longrightarrow>
     handler_result e x (res_json e v (res_status 201 (x\<lparr>db := d\<rparr>)))"
| found: "int_key (parseInt_val (param_val (params_id (req x)))) \<noteq> None \<Longrightarrow>
     handler_result e x (res_json e v x)"

section \<open>A sample clinic\<close>

text \<open>
  The default logins of the README, one patient, and an environment in which the store
  is up, every body passes validation, three tokens verify and the store folds the ASCII
  letters. \<^verbatim>\<open>JSON.parse\<close> is needed on one string only, \<^verbatim>\<open>OK\<close>, which is not JSON.
\<close>

definition dr_smith :: identity where
  "dr_smith = \<lparr>user_id = 1, username = ''dr_smith'', role = Doctor\<rparr>"

definition nurse_jane :: identity where
  "nurse_jane = \<lparr>user_id = 2, username = ''nurse_jane'', role = Nurse\<rparr>"

definition admin_user :: identity where
  "admin_user = \<lparr>user_id = 3, username = ''admin'', role = Admin\<rparr>"

definition jane_doe :: Patient where
  "jane_doe = \<lparr>patient_id = 1, full_name = ''Jane Doe'', date_of_birth = ''1990-01-01'',
     gender = ''female'', phone = Some ''555-EXT-7'', patient_created_at = 10\<rparr>"

definition clinic :: database where
  "clinic = \<lparr>users = [dr_smith, nurse_jane, admin_user], patients = [jane_doe],
     encounters = [], prescriptions = [], audit_logs = []\<rparr>"

text \<open>A store whose only patient has the identifier 0.\<close>

definition clinic_zero :: database where
  "clinic_zero = clinic\<lparr>patients := [jane_doe\<lparr>patient_id := 0\<rparr>]\<rparr>"

definition clinic_env :: env where
  "clinic_env =
     \<lparr>jwt_verify = (\<lambda>tok. if tok = ''doctor-token'' then Some dr_smith
                          else if tok = ''nurse-token'' then Some nurse_jane
                          else if tok = ''admin-token'' then Some admin_user else None),
      JSON_parse = (\<lambda>s. if s = ''null'' then Some JNull else None),
      joi = (\<lambda>sc b. []),
      db_fault = (\<lambda>op. False),
      pg_lower = map ascii_lower,
      now = 1000\<rparr>"

definition request_of :: "string option \<Rightarrow> string option \<Rightarrow> string option \<Rightarrow> json \<Rightarrow> request" where
  "request_of tok pid search b =
     \<lparr>cookies_token = tok, user = None, params_id = pid, query_search = search, body = b\<rparr>"

text \<open>An exchange as a middleware finds it, with the identity \<open>u\<close> and the wrappers \<open>ws\<close>.\<close>

definition exchange_of ::
  "identity option \<Rightarrow> string option \<Rightarrow> nat \<Rightarrow> (string \<times> string) list \<Rightarrow> exchange" where
  "exchange_of u pid code ws =
     \<lparr>req = \<lparr>cookies_token = Some ''nurse-token'', user = u, params_id = pid,
              query_search = None, body = JNull\<rparr>,
      statusCode = code, send_wrappers = ws, sent = [], db = clinic, console = []\<rparr>"

definition new_encounter :: json where
  "new_encounter = JObj [(''patient_id'', JNum 99), (''clinician_role'', JStr ''nurse'')]"

text \<open>
  The same with the patient given as \<^verbatim>\<open>"1e2"\<close>, which the schema reads as the number
  100.
\<close>

definition new_encounter_1e2 :: json where
  "new_encounter_1e2 = JObj [(''patient_id'', JStr ''1e2''), (''clinician_role'', JStr ''nurse'')]"

definition new_patient :: json where
  "new_patient = JObj [(''full_name'', JStr ''John Roe''), (''date_of_birth'', JStr ''1985-05-05''),
     (''gender'', JStr ''male'')]"

section \<open>Frame properties of sending\<close>

lemma audit_try_frame [simp]:
  "statusCode (audit_try e a t u data x) = statusCode x"
  "req (audit_try e a t u data x) = req x"
  "send_wrappers (audit_try e a t u data x) = send_wrappers x"
  "sent (audit_try e a t u data x) = sent x"
  by (simp_all add: audit_try_def split: sum.splits)

lemma audit_on_send_frame [simp]:
  "statusCode (audit_on_send e a t data x) = statusCode x"
  "req (audit_on_send e a t data x) = req x"
  "send_wrappers (audit_on_send e a t data x) = send_wrappers x"
  "sent (audit_on_send e a t data x) = sent x"
  by (simp_all add: audit_on_send_def split: option.splits)

lemma audit_steps_frame [simp]:
  "statusCode (audit_steps e ws data x) = statusCode x"
  "req (audit_steps e ws data x) = req x"
  "send_wrappers (audit_steps e ws data x) = send_wrappers x"
  "sent (audit_steps e ws data x) = sent x"
  by (induction e ws data x rule: audit_steps.induct) simp_all

lemma res_send_frame [simp]:
  "statusCode (res_send e data x) = statusCode x"
  "req (res_send e data x) = req x"
  "send_wrappers (res_send e data x) = send_wrappers x"
  "sent (res_send e data x)
     = sent x @ data # (case passed_to_json data of None \<Rightarrow> [] | Some v \<Rightarrow> [Serialized v])"
  by (simp_all add: res_send_def Let_def split: option.splits)

lemma res_json_frame [simp]:
  "statusCode (res_json e v x) = statusCode x"
  "req (res_json e v x) = req x"
  "send_wrappers (res_json e v x) = send_wrappers x"
  "sent (res_json e v x) = sent x @ [Serialized v]"
  by (simp_all add: res_json_def)

lemma res_status_simps [simp]:
  "statusCode (res_status c x) = c"
  "db (res_status c x) = db x"
  "req (res_status c x) = req x"
  "sent (res_status c x) = sent x"
  "send_wrappers (res_status c x) = send_wrappers x"
  "console (res_status c x) = console x"
  by (simp_all add: res_status_def)

lemma send_all_frame [simp]:
  "statusCode (send_all e ds x) = statusCode x"
  "req (send_all e ds x) = req x"
  "send_wrappers (send_all e ds x) = send_wrappers x"
  by (induction e ds x rule: send_all.induct) simp_all

text \<open>With an error status the wrappers do nothing.\<close>

lemma audit_on_send_error_status:
  "\<not> (200 \<le> statusCode x \<and> statusCode x < 300) \<Longrightarrow> audit_on_send e a t data x = x"
  by (auto simp: audit_on_send_def)

lemma audit_steps_error_status:
  "\<not> (200 \<le> statusCode x \<and> statusCode x < 300) \<Longrightarrow> audit_steps e ws data x = x"
  by (induction e ws data x rule: audit_steps.induct) (simp_all add: audit_on_send_error_status)

lemma res_json_error_status:
  "\<not> (200 \<le> statusCode x \<and> statusCode x < 300) \<Longrightarrow>
     res_json e v x = x\<lparr>sent := sent x @ [Serialized v]\<rparr>"
  by (simp add: res_json_def res_send_def audit_steps_error_status)

lemma res_json_unwrapped:
  "send_wrappers x = [] \<Longrightarrow> res_json e v x = x\<lparr>sent := sent x @ [Serialized v]\<rparr>"
  by (simp add: res_json_def res_send_def)

lemma database_error_simps [simp]:
  "statusCode (database_error e x) = 500"
  "db (database_error e x) = db x"
  "req (database_error e x) = req x"
  by (simp_all add: database_error_def res_json_error_status res_status_def)

section \<open>What one audit step does to the store and the log\<close>

lemma or_null_entity:
  assumes "case or_null (entityId rq pd) of Js JNull \<Rightarrow> True | Js (JNum n) \<Rightarrow> True | _ \<Rightarrow> False"
  shows "(case or_null (entityId rq pd) of Js (JNum n) \<Rightarrow> Some n | _ \<Rightarrow> None) = spec_entity_id rq pd"
  using assms
  by (cases "params_id rq")
     (auto simp: or_null_def entityId_def spec_entity_id_def
       split: option.splits jsval.splits json.splits if_splits)

lemma spec_entity_id_nonzero: "spec_entity_id rq pd \<noteq> Some 0"
  by (auto simp: spec_entity_id_def split: option.splits jsval.splits json.splits)

lemma audit_on_send_db:
  "db (audit_on_send e a t data x) =
     (if 200 \<le> statusCode x \<and> statusCode x < 300 \<and> user (req x) \<noteq> None
         \<and> recordable e (req x) data then
        (db x)\<lparr>audit_logs := audit_logs (db x) @
          [audit_entry e a t (role (the (user (req x))))
             (spec_entity_id (req x) (projr (parsedData e data))) (audit_logs (db x))]\<rparr>
      else db x)"
proof (cases "200 \<le> statusCode x \<and> statusCode x < 300 \<and> user (req x) \<noteq> None
         \<and> recordable e (req x) data")
  case False
  then show ?thesis
    by (auto simp: audit_on_send_def audit_try_def recordable_def auditLog_create_def
        split: option.splits sum.splits jsval.splits json.splits)
next
  case True
  then obtain pd where pd: "parsedData e data = Inr pd"
    and acc: "case or_null (entityId (req x) pd) of Js JNull \<Rightarrow> True | Js (JNum n) \<Rightarrow> True | _ \<Rightarrow> False"
    by (auto simp: recordable_def split: sum.splits)
  from True pd acc or_null_entity [OF acc] show ?thesis
    by (auto simp: audit_on_send_def audit_try_def recordable_def auditLog_create_def audit_entry_def
        split: option.splits sum.splits jsval.splits json.splits)
qed

lemma audit_on_send_console:
  "console (audit_on_send e a t data x) =
     (if 200 \<le> statusCode x \<and> statusCode x < 300 \<and> user (req x) \<noteq> None
         \<and> \<not> recordable e (req x) data then
        console x @ [if isl (parsedData e data) then ''Error in audit log middleware:''
                     else ''Audit log error:'']
      else console x)"
  by (auto simp: audit_on_send_def audit_try_def recordable_def auditLog_create_def
      split: option.splits sum.splits jsval.splits json.splits)

lemma passed_to_json_parsed:
  "passed_to_json data = Some v \<Longrightarrow> parsedData e data = Inr v"
  by (cases data) (simp_all add: parsedData_def)

lemma passed_to_json_recordable:
  "passed_to_json data = Some v \<Longrightarrow> recordable e rq (Serialized v) = recordable e rq data"
  by (cases data) (simp_all add: recordable_def parsedData_def)

lemma res_json_one:
  "send_wrappers x = [(a, t)] \<Longrightarrow>
     res_json e v x = (audit_on_send e a t (Serialized v) x)\<lparr>sent := sent x @ [Serialized v]\<rparr>"
  by (simp add: res_json_def res_send_def)

text \<open>
  One call of \<^verbatim>\<open>res.send\<close> through one recorder: the entries it adds, as many as it
  has passes when the step goes through, and the lines it logs.
\<close>

lemma res_send_one_db:
  assumes "send_wrappers x = [(a, t)]"
  shows "db (res_send e data x) = (db x)\<lparr>audit_logs := audit_logs (db x) @ recorded e a t data x\<rparr>"
proof (cases "200 \<le> statusCode x \<and> statusCode x < 300 \<and> user (req x) \<noteq> None
         \<and> recordable e (req x) data")
  case due: True
  show ?thesis
  proof (cases "passed_to_json data")
    case None
    then have "res_send e data x = (audit_on_send e a t data x)\<lparr>sent := sent x @ [data]\<rparr>"
      using assms by (simp add: res_send_def)
    with due None show ?thesis
      by (simp add: audit_on_send_db recorded_def Let_def)
  next
    case (Some v)
    let ?x1 = "audit_on_send e a t data x"
    let ?x2 = "?x1\<lparr>sent := sent ?x1 @ [data]\<rparr>"
    have r: "res_send e data x
        = (audit_on_send e a t (Serialized v) ?x2)\<lparr>sent := sent x @ [data, Serialized v]\<rparr>"
      using assms Some by (simp add: res_send_def)
    have p: "parsedData e (Serialized v) = parsedData e data"
      using passed_to_json_parsed [OF Some] by (simp add: parsedData_def)
    from due passed_to_json_recordable [OF Some, of e "req x"]
    have due2: "recordable e (req x) (Serialized v)" by simp
    show ?thesis
      unfolding r using Some due due2 p
      by (simp add: audit_on_send_db recorded_def Let_def)
  qed
next
  case undue: False
  let ?x1 = "audit_on_send e a t data x"
  let ?x2 = "?x1\<lparr>sent := sent ?x1 @ [data]\<rparr>"
  from undue have 1: "db ?x1 = db x"
    by (simp only: audit_on_send_db if_False)
  from undue have none: "recorded e a t data x = []"
    by (simp only: recorded_def if_False)
  show ?thesis
  proof (cases "passed_to_json data")
    case None
    then have "res_send e data x = ?x2"
      using assms by (simp add: res_send_def)
    with 1 none show ?thesis
      by simp
  next
    case (Some v)
    have r: "res_send e data x
        = (audit_on_send e a t (Serialized v) ?x2)\<lparr>sent := sent x @ [data, Serialized v]\<rparr>"
      using assms Some by (simp add: res_send_def)
    from undue passed_to_json_recordable [OF Some, of e "req x"]
    have "\<not> (200 \<le> statusCode ?x2 \<and> statusCode ?x2 < 300 \<and> user (req ?x2) \<noteq> None
         \<and> recordable e (req ?x2) (Serialized v))" by simp
    then have "db (audit_on_send e a t (Serialized v) ?x2) = db ?x2"
      by (simp only: audit_on_send_db if_False)
    with 1 none show ?thesis
      unfolding r by simp
  qed
qed

lemma length_recorded:
  "length (recorded e a t data x) =
     (if 200 \<le> statusCode x \<and> statusCode x < 300 \<and> user (req x) \<noteq> None
         \<and> recordable e (req x) data then passes data else 0)"
  by (simp add: recorded_def passes_def Let_def split: option.splits)

lemma recorded_fields:
  assumes "entry \<in> set (recorded e a t data x)"
  shows "\<exists>u pd. user (req x) = Some u \<and> parsedData e data = Inr pd
     \<and> 200 \<le> statusCode x \<and> statusCode x < 300
     \<and> user_role entry = role u \<and> action entry = a \<and> entity_type entry = t
     \<and> entity_id entry = spec_entity_id (req x) pd \<and> timestamp entry = now e"
proof -
  from assms have c: "200 \<le> statusCode x" "statusCode x < 300" "user (req x) \<noteq> None"
    "recordable e (req x) data"
    by (auto simp: recorded_def split: if_splits)
  then obtain u where u: "user (req x) = Some u" by auto
  from c(4) obtain pd where pd: "parsedData e data = Inr pd"
    by (auto simp: recordable_def split: sum.splits)
  from assms c u pd show ?thesis
    by (auto simp: recorded_def audit_entry_def Let_def split: if_splits)
qed

lemma res_send_one_console:
  assumes "send_wrappers x = [(a, t)]"
  shows "length (console (res_send e data x)) = length (console x) +
     (if 200 \<le> statusCode x \<and> statusCode x < 300 \<and> user (req x) \<noteq> None
         \<and> \<not> recordable e (req x) data then passes data else 0)"
proof (cases "passed_to_json data")
  case None
  then have "res_send e data x = (audit_on_send e a t data x)\<lparr>sent := sent x @ [data]\<rparr>"
    using assms by (simp add: res_send_def)
  then show ?thesis
    using None by (simp add: audit_on_send_console passes_def)
next
  case (Some v)
  let ?x1 = "audit_on_send e a t data x"
  let ?x2 = "?x1\<lparr>sent := sent ?x1 @ [data]\<rparr>"
  have r: "res_send e data x
      = (audit_on_send e a t (Serialized v) ?x2)\<lparr>sent := sent x @ [data, Serialized v]\<rparr>"
    using assms Some by (simp add: res_send_def)
  show ?thesis
    unfolding r using Some passed_to_json_recordable [OF Some, of e "req x"]
    by (simp add: audit_on_send_console passes_def)
qed

lemma parseInt_empty [simp]: "parseInt [] = NaN"
  by (simp add: parseInt_def)

lemma recordable_Serialized:
  assumes "\<not> db_fault e AuditLogCreate" and "entityId rq v = Js (JNum k)"
  shows "recordable e rq (Serialized v)"
  using assms by (simp add: recordable_def parsedData_def or_null_def)

lemma res_json_audited:
  assumes "send_wrappers x = [(a, t)]" and "user (req x) = Some u"
    and "\<not> db_fault e AuditLogCreate" and "200 \<le> statusCode x" and "statusCode x < 300"
    and "entityId (req x) v = Js (JNum k)"
  shows "db (res_json e v x) = (db x)\<lparr>audit_logs := audit_logs (db x) @
           [audit_entry e a t (role u) (spec_entity_id (req x) v) (audit_logs (db x))]\<rparr>"
proof -
  have r: "recordable e (req x) (Serialized v)"
    by (rule recordable_Serialized [OF assms(3) assms(6)])
  with assms show ?thesis
    by (simp add: res_json_one audit_on_send_db parsedData_def)
qed

lemma entityId_no_param: "params_id rq = None \<Longrightarrow> entityId rq v = get_prop ''id'' v"
  by (simp add: entityId_def)

lemma entityId_param:
  "parseInt_val (param_val (params_id rq)) = Js (JNum k) \<Longrightarrow> entityId rq v = Js (JNum k)"
  by (cases "params_id rq") (auto simp: entityId_def)

section \<open>Running a chain of middleware\<close>

lemma run_chain_last: "run_chain e [h] x = result (h e x)"
  by (cases "h e x") simp_all

lemma gate_pass:
  assumes "cookies_token (req x) = Some tok" and "tok \<noteq> []" and "jwt_verify e tok = Some u"
    and "role u \<in> set roles"
  shows "run_chain e (authenticateToken # requireRole roles # ms) x
           = run_chain e ms (x\<lparr>req := (req x)\<lparr>user := Some u\<rparr>\<rparr>)"
  using assms by (simp add: authenticateToken_def requireRole_def)

lemma gate_reject:
  assumes "\<not> (\<exists>tok u. cookies_token (req x) = Some tok \<and> tok \<noteq> [] \<and> jwt_verify e tok = Some u
               \<and> role u \<in> set roles)"
  shows "statusCode (run_chain e (authenticateToken # requireRole roles # ms) x) \<in> {401, 403}
         \<and> db (run_chain e (authenticateToken # requireRole roles # ms) x) = db x"
proof (cases "truthy_str (cookies_token (req x))")
  case False
  then show ?thesis
    by (simp add: authenticateToken_def res_json_error_status)
next
  case True
  then obtain tok where tok: "cookies_token (req x) = Some tok" "tok \<noteq> []"
    by (cases "cookies_token (req x)") auto
  show ?thesis
  proof (cases "jwt_verify e tok")
    case None
    with tok show ?thesis
      by (simp add: authenticateToken_def res_json_error_status)
  next
    case (Some u)
    with tok assms have "role u \<notin> set roles" by auto
    with tok Some show ?thesis
      by (simp add: authenticateToken_def requireRole_def res_json_error_status)
  qed
qed

lemma validate_pass:
  "joi e sc (body (req x)) = [] \<Longrightarrow> run_chain e (validate sc # ms) x = run_chain e ms x"
  by (simp add: validate_def)

lemma validate_reject:
  "joi e sc (body (req x)) \<noteq> [] \<Longrightarrow>
     statusCode (run_chain e (validate sc # ms) x) = 400
     \<and> db (run_chain e (validate sc # ms) x) = db x"
  by (cases "joi e sc (body (req x))") (simp_all add: validate_def res_json_error_status)

lemma auditLog_step:
  "run_chain e (auditLog a t # ms) x = run_chain e ms (x\<lparr>send_wrappers := (a, t) # send_wrappers x\<rparr>)"
  by (simp add: auditLog_def)

lemma incoming_simps [simp]:
  "user (req (incoming r rq d)) = None"
  "cookies_token (req (incoming r rq d)) = cookies_token rq"
  "body (req (incoming r rq d)) = body rq"
  "query_search (req (incoming r rq d)) = query_search rq"
  "params_id (req (incoming r rq d)) = (if has_id_param r then params_id rq else None)"
  "statusCode (incoming r rq d) = 200"
  "send_wrappers (incoming r rq d) = []"
  "sent (incoming r rq d) = []"
  "db (incoming r rq d) = d"
  "console (incoming r rq d) = []"
  by (simp_all add: incoming_def)

lemma every_role: "role u \<in> set [Doctor, Nurse, Admin]"
  by (cases "role u") simp_all

section \<open>The handlers behind an audit recorder\<close>

lemma patient_create_Inr:
  "patient_create e n b g p d = Inr (row, d') \<Longrightarrow> d' = d\<lparr>patients := patients d @ [row]\<rparr>"
  by (auto simp: patient_create_def Let_def split: if_splits option.splits)

lemma encounter_create_Inr:
  "encounter_create e k r n d = Inr (row, d') \<Longrightarrow> d' = d\<lparr>encounters := encounters d @ [row]\<rparr>"
  by (auto simp: encounter_create_def Let_def split: if_splits option.splits)

lemma prescription_create_Inr:
  "prescription_create e k a b c f u d = Inr (row, d') \<Longrightarrow>
     d' = d\<lparr>prescriptions := prescriptions d @ [row]\<rparr>"
  by (auto simp: prescription_create_def Let_def split: if_splits option.splits)

lemma int_key_Some: "int_key k = Some i \<longleftrightarrow> k = Js (JNum i)"
  by (cases k rule: int_key.cases) auto

lemma patient_findUnique_Inr:
  "patient_findUnique e k d = Inr r \<Longrightarrow> int_key k \<noteq> None"
  by (auto simp: patient_findUnique_def split: if_splits option.splits)

lemma get_prop_created [simp]: "get_prop ''id'' (created_json i msg) = Js (JNum i)"
  by (simp add: created_json_def)

lemma post_patients_result:
  "params_id (req x) = None \<Longrightarrow> handler_result e x (result (post_patients e x))"
  by (auto simp: post_patients_def Let_def intro!: handler_result.intros
      dest!: patient_create_Inr split: sum.splits)

lemma post_encounters_result:
  "params_id (req x) = None \<Longrightarrow> handler_result e x (result (post_encounters e x))"
  by (auto simp: post_encounters_def Let_def intro!: handler_result.intros
      dest!: encounter_create_Inr split: sum.splits option.splits)

lemma post_prescriptions_result:
  "params_id (req x) = None \<Longrightarrow> handler_result e x (result (post_prescriptions e x))"
  by (auto simp: post_prescriptions_def Let_def intro!: handler_result.intros
      dest!: prescription_create_Inr split: sum.splits option.splits)

lemma get_patient_result: "handler_result e x (result (get_patient e x))"
  by (auto simp: get_patient_def intro!: handler_result.intros
      dest!: patient_findUnique_Inr split: sum.splits option.splits)

lemma get_patient_records_result: "handler_result e x (result (get_patient_records e x))"
  by (auto simp: get_patient_records_def intro!: handler_result.intros
      dest!: patient_findUnique_Inr split: sum.splits option.splits)

lemma get_patients_db: "send_wrappers x = [] \<Longrightarrow> db (result (get_patients e x)) = db x"
  by (simp add: get_patients_def res_json_unwrapped split: sum.splits)

lemma get_audit_logs_db: "send_wrappers x = [] \<Longrightarrow> db (result (get_audit_logs e x)) = db x"
  by (simp add: get_audit_logs_def res_json_unwrapped split: sum.splits)

lemma handler_result_audited:
  assumes "handler_result e x y"
    and "send_wrappers x = [(a, t)]" and "user (req x) = Some u" and "\<not> db_fault e AuditLogCreate"
    and "statusCode x = 200" and "200 \<le> statusCode y" and "statusCode y < 300"
  shows "\<exists>entry. audit_logs (db y) = audit_logs (db x) @ [entry]
           \<and> user_role entry = role u \<and> action entry = a \<and> entity_type entry = t"
  using assms(1)
proof cases
  case failed
  with assms(7) show ?thesis by simp
next
  case (missing v)
  with assms(7) show ?thesis by simp
next
  case (created d v i)
  let ?y = "res_status 201 (x\<lparr>db := d\<rparr>)"
  have "entityId (req ?y) v = Js (JNum i)"
    using created by (simp add: entityId_no_param)
  then have "db (res_json e v ?y) = (db ?y)\<lparr>audit_logs := audit_logs (db ?y) @
         [audit_entry e a t (role u) (spec_entity_id (req ?y) v) (audit_logs (db ?y))]\<rparr>"
    by (rule res_json_audited [rotated -1]) (use assms created in simp_all)
  with created show ?thesis by (simp add: audit_entry_def)
next
  case (found v)
  then obtain k where "parseInt_val (param_val (params_id (req x))) = Js (JNum k)"
    by (auto simp: int_key_Some)
  then have "entityId (req x) v = Js (JNum k)"
    by (simp add: entityId_param)
  then have "db (res_json e v x) = (db x)\<lparr>audit_logs := audit_logs (db x) @
         [audit_entry e a t (role u) (spec_entity_id (req x) v) (audit_logs (db x))]\<rparr>"
    by (rule res_json_audited [rotated -1]) (use assms found in simp_all)
  with found show ?thesis by (simp add: audit_entry_def)
qed

text \<open>
  A route with a recorder: whenever the final status is a success, the gate and the
  validation have let the request through and the handler's single write has been
  recorded.
\<close>

lemma audited_chain:
  assumes pre: "pre = [] \<or> pre = [validate sc]"
    and hr: "\<And>x. (\<not> has_id_param r \<longrightarrow> params_id (req x) = None) \<Longrightarrow>
               handler_result e x (result (h e x))"
    and s: "s = run_chain e (authenticateToken # requireRole roles # pre @ [auditLog a t, h])
                  (incoming r rq d)"
    and ok: "200 \<le> statusCode s" "statusCode s < 300" "\<not> db_fault e AuditLogCreate"
  shows "\<exists>tok u entry. cookies_token rq = Some tok \<and> jwt_verify e tok = Some u
           \<and> audit_logs (db s) = audit_logs d @ [entry]
           \<and> user_role entry = role u \<and> action entry = a \<and> entity_type entry = t"
proof (cases "\<exists>tok u. cookies_token (req (incoming r rq d)) = Some tok \<and> tok \<noteq> []
                 \<and> jwt_verify e tok = Some u \<and> role u \<in> set roles")
  case False
  have "statusCode s \<in> {401, 403}"
    unfolding s using gate_reject [OF False] by blast
  with ok show ?thesis by auto
next
  case True
  then obtain tok u where tu: "cookies_token rq = Some tok" "tok \<noteq> []" "jwt_verify e tok = Some u"
    "role u \<in> set roles" by auto
  let ?x1 = "(incoming r rq d)\<lparr>req := (req (incoming r rq d))\<lparr>user := Some u\<rparr>\<rparr>"
  let ?x2 = "?x1\<lparr>send_wrappers := (a, t) # send_wrappers ?x1\<rparr>"
  have s1: "s = run_chain e (pre @ [auditLog a t, h]) ?x1"
    unfolding s by (rule gate_pass) (use tu in simp_all)
  have passed: "run_chain e (pre @ [auditLog a t, h]) ?x1 = run_chain e [auditLog a t, h] ?x1"
  proof (cases "pre = []")
    case True
    then show ?thesis by simp
  next
    case False
    with pre have p: "pre = [validate sc]" by simp
    show ?thesis
    proof (cases "joi e sc (body (req ?x1)) = []")
      case True
      then show ?thesis unfolding p by (simp add: validate_pass del: run_chain.simps)
    next
      case False
      from validate_reject [OF False, of "[auditLog a t, h]"] s1 p ok show ?thesis
        by (simp del: run_chain.simps)
    qed
  qed
  with s1 have s2: "s = result (h e ?x2)"
    by (simp only: auditLog_step run_chain_last)
  have "\<exists>entry. audit_logs (db s) = audit_logs (db ?x2) @ [entry]
           \<and> user_role entry = role u \<and> action entry = a \<and> entity_type entry = t"
    by (rule handler_result_audited [where e = e and x = "?x2"])
       (use hr [of ?x2] s2 ok in simp_all)
  with tu show ?thesis by auto
qed

lemma unaudited_chain:
  assumes h: "\<And>x. send_wrappers x = [] \<Longrightarrow> db (result (h e x)) = db x"
  shows "db (run_chain e [authenticateToken, requireRole roles, h] (incoming r rq d)) = d"
proof (cases "\<exists>tok u. cookies_token (req (incoming r rq d)) = Some tok \<and> tok \<noteq> []
                 \<and> jwt_verify e tok = Some u \<and> role u \<in> set roles")
  case False
  from gate_reject [OF False] show ?thesis by (simp del: run_chain.simps)
next
  case True
  then obtain tok u where tu: "cookies_token (req (incoming r rq d)) = Some tok" "tok \<noteq> []"
    "jwt_verify e tok = Some u" "role u \<in> set roles" by auto
  show ?thesis
    by (simp only: gate_pass [OF tu] run_chain_last) (simp add: h)
qed

section \<open>The patient list\<close>

lemma contains_iff_sublist: "contains s sub \<longleftrightarrow> sublist sub s"
  by (induction s) (auto simp: sublist_Cons_right)

text \<open>
  For a search string without special characters, matching \<^verbatim>\<open>%search%\<close> is
  containing the string.
\<close>

lemma like_any: "like t ''%''"
  by (induction t) simp_all

lemma like_plain_prefix: "plain s \<Longrightarrow> like t (s @ ''%'') \<longleftrightarrow> prefix s t"
proof (induction s arbitrary: t)
  case Nil
  then show ?case by (simp add: like_any)
next
  case (Cons p ps)
  then have "plain ps" and p: "p \<noteq> CHR ''%''" "p \<noteq> CHR ''_''" "p \<noteq> CHR 0x5C"
    by (auto simp: plain_def)
  with Cons.IH show ?case by (cases t) auto
qed

lemma like_plain_contains: "plain s \<Longrightarrow> like t (''%'' @ s @ ''%'') \<longleftrightarrow> contains t s"
  by (induction t) (auto simp: like_plain_prefix)

lemma of_char_upper:
  assumes "65 \<le> n" and "n \<le> (90::nat)"
  shows "of_char (char_of (n + 32)) = n + 32"
proof -
  have "of_char (char_of (n + 32)) = (n + 32) mod 256" by (rule of_char_of)
  with assms show ?thesis by simp
qed

lemma ascii_lower_special:
  "ascii_lower c = CHR ''%'' \<longleftrightarrow> c = CHR ''%''"
  "ascii_lower c = CHR ''_'' \<longleftrightarrow> c = CHR ''_''"
  "ascii_lower c = CHR 0x5C \<longleftrightarrow> c = CHR 0x5C"
proof -
  have *: "ascii_lower c = d \<longleftrightarrow> c = d"
    if "(of_char d :: nat) < 65 \<or> (90 < (of_char d :: nat) \<and> (of_char d :: nat) < 97)" for d
  proof (cases "65 \<le> (of_char c :: nat) \<and> (of_char c :: nat) \<le> 90")
    case True
    then have "of_char (ascii_lower c) = (of_char c :: nat) + 32"
      by (simp add: ascii_lower_def Let_def of_char_upper)
    with True that show ?thesis by auto
  next
    case False
    then show ?thesis by (auto simp: ascii_lower_def Let_def)
  qed
  show "ascii_lower c = CHR ''%'' \<longleftrightarrow> c = CHR ''%''" by (rule *) simp
  show "ascii_lower c = CHR ''_'' \<longleftrightarrow> c = CHR ''_''" by (rule *) simp
  show "ascii_lower c = CHR 0x5C \<longleftrightarrow> c = CHR 0x5C" by (rule *) simp
qed

lemma plain_Cons:
  "plain (c # cs) \<longleftrightarrow> c \<noteq> CHR ''%'' \<and> c \<noteq> CHR ''_'' \<and> c \<noteq> CHR 0x5C \<and> plain cs"
  by (auto simp: plain_def)

lemma plain_lower: "plain s \<Longrightarrow> plain (map ascii_lower s)"
proof (induction s)
  case Nil
  then show ?case by simp
next
  case (Cons c cs)
  then show ?case by (simp add: plain_Cons ascii_lower_special)
qed

lemma ilike_plain:
  assumes "pg_lower e = map ascii_lower" and "plain s"
  shows "ilike e n (''%'' @ s @ ''%'') \<longleftrightarrow> icontains n s"
proof -
  have "map ascii_lower (''%'' @ s @ ''%'') = ''%'' @ map ascii_lower s @ ''%''"
    by (simp add: ascii_lower_special)
  with assms(1) have "ilike e n (''%'' @ s @ ''%'')
      \<longleftrightarrow> like (map ascii_lower n) (''%'' @ map ascii_lower s @ ''%'')"
    by (simp only: ilike_def)
  also have "\<dots> \<longleftrightarrow> contains (map ascii_lower n) (map ascii_lower s)"
    by (rule like_plain_contains [OF plain_lower [OF assms(2)]])
  finally show ?thesis by (simp only: icontains_def)
qed

lemma patient_where_search:
  "s \<noteq> [] \<Longrightarrow> patient_where e (Some s) p
     \<longleftrightarrow> ilike e (full_name p) (''%'' @ s @ ''%'')
         \<or> (\<exists>ph. phone p = Some ph \<and> like ph (''%'' @ s @ ''%''))"
  by (auto simp: patient_where_def split: option.splits)

lemma newest_sorted:
  "sorted_wrt (\<lambda>p q. f q \<le> (f p :: int)) (take n (sort_key (\<lambda>p. - f p) xs))"
proof -
  have "sorted (map (\<lambda>p. - f p) (sort_key (\<lambda>p. - f p) xs))" by (rule sorted_sort_key)
  then have "sorted_wrt (\<lambda>p q. f q \<le> f p) (sort_key (\<lambda>p. - f p) xs)"
    by (simp add: sorted_wrt_map)
  then show ?thesis by (rule sorted_wrt_take)
qed

lemma newest_subset: "set (take n (sort_key g xs)) \<subseteq> set xs"
  using set_take_subset [of n "sort_key g xs"] by simp

lemma newest_omitted:
  assumes "p \<in> set xs" and "p \<notin> set (take n (sort_key (\<lambda>p. - f p) xs))"
    and "r \<in> set (take n (sort_key (\<lambda>p. - f p) xs))"
  shows "f p \<le> (f r :: int)"
proof -
  let ?ys = "sort_key (\<lambda>p. - f p) xs"
  have "sorted_wrt (\<lambda>p q. f q \<le> f p) (take n ?ys @ drop n ?ys)"
    using sorted_sort_key [of "\<lambda>p. - f p" xs] by (simp add: sorted_wrt_map)
  then have *: "\<forall>a \<in> set (take n ?ys). \<forall>b \<in> set (drop n ?ys). f b \<le> f a"
    by (simp only: sorted_wrt_append) blast
  have "set ?ys = set (take n ?ys) \<union> set (drop n ?ys)"
    by (metis append_take_drop_id set_append)
  with assms(1,2) have "p \<in> set (drop n ?ys)" by simp
  with * assms(3) show ?thesis by blast
qed

lemma rows_match:
  assumes "query_search rq = Some s" and "s \<noteq> []"
    and "p \<in> set (take n (sort_key g (filter (patient_where e (query_search rq)) (patients d))))"
  shows "ilike e (full_name p) (''%'' @ s @ ''%'')
         \<or> (\<exists>ph. phone p = Some ph \<and> like ph (''%'' @ s @ ''%''))"
proof -
  have "p \<in> set (filter (patient_where e (query_search rq)) (patients d))"
    by (rule subsetD [OF newest_subset assms(3)])
  with assms(1,2) show ?thesis by (simp add: patient_where_search)
qed

lemma rows_complete:
  assumes "p \<in> set xs" and "p \<notin> set (take n (sort_key (\<lambda>p. - f p) xs))"
  shows "length (take n (sort_key (\<lambda>p. - f p) xs)) = n
         \<and> (\<forall>r \<in> set (take n (sort_key (\<lambda>p. - f p) xs)). f p \<le> (f r :: int))"
proof -
  have "\<not> length xs \<le> n"
  proof
    assume "length xs \<le> n"
    then have "take n (sort_key (\<lambda>p. - f p) xs) = sort_key (\<lambda>p. - f p) xs" by simp
    with assms show False by simp
  qed
  then have "length (take n (sort_key (\<lambda>p. - f p) xs)) = n" by simp
  with newest_omitted [OF assms] show ?thesis by blast
qed

lemma serve_get_patients:
  assumes "cookies_token rq = Some tok" and "tok \<noteq> []" and "jwt_verify e tok = Some u"
    and "\<not> db_fault e PatientFindMany"
  shows "serve e GetPatients rq d =
     (incoming GetPatients rq d)\<lparr>req := (req (incoming GetPatients rq d))\<lparr>user := Some u\<rparr>,
        sent := [Serialized (JArr (map patient_json
           (take 50 (sort_key (\<lambda>p. - patient_created_at p)
              (filter (patient_where e (query_search rq)) (patients d))))))]\<rparr>"
proof -
  let ?x1 = "(incoming GetPatients rq d)\<lparr>req := (req (incoming GetPatients rq d))\<lparr>user := Some u\<rparr>\<rparr>"
  have "serve e GetPatients rq d = run_chain e [get_patients] ?x1"
    unfolding serve_def chain.simps by (rule gate_pass) (use assms every_role in simp_all)
  also have "\<dots> = result (get_patients e ?x1)"
    by (simp only: run_chain_last)
  finally show ?thesis
    using assms(4) by (simp add: get_patients_def patient_findMany_def res_json_unwrapped)
qed

lemma find_None_conv: "find P xs = None \<longleftrightarrow> (\<forall>x \<in> set xs. \<not> P x)"
  by (induction xs) auto

section \<open>Decimal numerals\<close>

text \<open>
  \<^verbatim>\<open>parseInt\<close> reads the decimal numeral of an integer back, as long as the integer is
  exact as a Number.
\<close>

lemma of_char_decimal:
  assumes "0 \<le> d" and "d < 10"
  shows "of_char (char_of (48 + d :: int)) = 48 + nat d"
proof -
  have "int (of_char (char_of (48 + d))) = of_char (char_of (48 + d))"
    by (rule of_nat_of_char)
  also have "\<dots> = (48 + d) mod 256" by (rule of_char_of)
  also have "\<dots> = 48 + d" using assms by simp
  finally show ?thesis using assms by linarith
qed

lemma digit_val_decimal:
  "0 \<le> d \<Longrightarrow> d < 10 \<Longrightarrow> digit_val (char_of (48 + d :: int)) = Some (nat d)"
  by (simp add: digit_val_def of_char_decimal Let_def)

lemma digits10_decimal: "0 \<le> n \<Longrightarrow> c \<in> set (digits10 n)
    \<Longrightarrow> \<exists>d :: int. 0 \<le> d \<and> d < 10 \<and> c = char_of (48 + d)"
proof (induction n rule: digits10.induct)
  case (1 n)
  show ?case
  proof (cases "n < 10")
    case True
    with 1 show ?thesis by (auto simp: digits10.simps [of n])
  next
    case False
    with 1(3) have "c \<in> set (digits10 (n div 10)) \<or> c = char_of (48 + n mod 10)"
      by (auto simp: digits10.simps [of n])
    then show ?thesis
    proof
      assume "c \<in> set (digits10 (n div 10))"
      with 1(1) [OF False] 1(2) show ?thesis by simp
    next
      assume "c = char_of (48 + n mod 10)"
      moreover have "0 \<le> n mod 10" "n mod 10 < 10" by simp_all
      ultimately show ?thesis by blast
    qed
  qed
qed

lemma digits10_is_digit: "0 \<le> n \<Longrightarrow> c \<in> set (digits10 n) \<Longrightarrow> is_digit 10 c"
  using digits10_decimal [of n c] by (auto simp: is_digit_def digit_val_decimal)

lemma digits10_value:
  "0 \<le> n \<Longrightarrow> foldl (\<lambda>a c. a * 10 + int (digit_of c)) 0 (digits10 n) = n"
proof (induction n rule: digits10.induct)
  case (1 n)
  show ?case
  proof (cases "n < 10")
    case True
    with 1(2) show ?thesis
      by (simp add: digits10.simps [of n] digit_of_def digit_val_decimal)
  next
    case False
    with 1 have "foldl (\<lambda>a c. a * 10 + int (digit_of c)) 0 (digits10 (n div 10)) = n div 10"
      by simp
    moreover have "digit_of (char_of (48 + n mod 10)) = nat (n mod 10)"
      by (simp add: digit_of_def digit_val_decimal)
    ultimately show ?thesis
      using False by (simp add: digits10.simps [of n])
  qed
qed

lemma digits10_Cons: "\<exists>c cs. digits10 n = c # cs"
  by (cases "digits10 n") (auto simp: digits10.simps [of n] split: if_splits)

lemma trim_start_ascii:
  "\<not> space1 (of_char c) \<Longrightarrow> (of_char c :: nat) < 128 \<Longrightarrow> trim_start (c # cs) = c # cs"
proof (cases cs)
  case Nil
  assume "\<not> space1 (of_char c)"
  with Nil show ?thesis by simp
next
  case (Cons b bs)
  assume *: "\<not> space1 (of_char c)" "(of_char c :: nat) < 128"
  show ?thesis
  proof (cases bs)
    case Nil
    with Cons * show ?thesis by (simp add: space2_def)
  next
    case (Cons a as)
    with \<open>cs = b # bs\<close> * show ?thesis by (simp add: space2_def space3_def)
  qed
qed

lemma parseInt_digits10:
  assumes "0 \<le> n" and "n < 2 ^ 53"
  shows "parseInt (digits10 n) = Js (JNum n)"
proof -
  obtain c cs where s: "digits10 n = c # cs" using digits10_Cons by blast
  have all: "\<And>a. a \<in> set (c # cs) \<Longrightarrow> is_digit 10 a"
    using digits10_is_digit [OF assms(1)] s by simp
  have c: "\<exists>d :: int. 0 \<le> d \<and> d < 10 \<and> c = char_of (48 + d)"
    using digits10_decimal [OF assms(1), of c] s by simp
  then have t: "trim_start (c # cs) = c # cs"
    by (intro trim_start_ascii) (auto simp: of_char_decimal space1_def)
  have sign: "c \<noteq> CHR ''+''" "c \<noteq> CHR ''-''"
    using all [of c] by (auto simp: is_digit_def digit_val_def)
  have hex: "\<not> (case c # cs of a # d # r \<Rightarrow> a = CHR ''0'' \<and> (d = CHR ''x'' \<or> d = CHR ''X'') | _ \<Rightarrow> False)"
  proof (cases cs)
    case Nil
    then show ?thesis by simp
  next
    case (Cons d r)
    with all [of d] have "is_digit 10 d" by simp
    then have "d \<noteq> CHR ''x''" "d \<noteq> CHR ''X''" by (auto simp: is_digit_def digit_val_def)
    with Cons show ?thesis by simp
  qed
  have tw: "takeWhile (is_digit 10) (c # cs) = c # cs"
    using all by (simp only: takeWhile_eq_all_conv) blast
  have v: "foldl (\<lambda>a c. a * 10 + int (digit_of c)) 0 (c # cs) = n"
    using digits10_value [OF assms(1)] s by simp
  have d: "to_double n = Some n" using assms(2) by (simp add: to_double_def)
  have "parseInt (c # cs) = Js (JNum n)"
    unfolding parseInt_def t using sign hex tw v d by (simp add: Let_def del: foldl.simps)
  with s show ?thesis by simp
qed

lemma parseInt_minus_digits10:
  assumes "0 < n" and "n < 2 ^ 53"
  shows "parseInt (CHR ''-'' # digits10 n) = Js (JNum (- n))"
proof -
  obtain c cs where s: "digits10 n = c # cs" using digits10_Cons by blast
  have n0: "0 \<le> n" using assms(1) by simp
  have all: "\<And>a. a \<in> set (c # cs) \<Longrightarrow> is_digit 10 a"
    using digits10_is_digit [OF n0] s by simp
  have t: "trim_start (CHR ''-'' # c # cs) = CHR ''-'' # c # cs"
    by (intro trim_start_ascii) (simp_all add: space1_def)
  have hex: "\<not> (case c # cs of a # d # r \<Rightarrow> a = CHR ''0'' \<and> (d = CHR ''x'' \<or> d = CHR ''X'') | _ \<Rightarrow> False)"
  proof (cases cs)
    case Nil
    then show ?thesis by simp
  next
    case (Cons d r)
    with all [of d] have "is_digit 10 d" by simp
    then have "d \<noteq> CHR ''x''" "d \<noteq> CHR ''X''" by (auto simp: is_digit_def digit_val_def)
    with Cons show ?thesis by simp
  qed
  have tw: "takeWhile (is_digit 10) (c # cs) = c # cs"
    using all by (simp only: takeWhile_eq_all_conv) blast
  have v: "foldl (\<lambda>a c. a * 10 + int (digit_of c)) 0 (c # cs) = n"
    using digits10_value [OF n0] s by simp
  have d: "to_double n = Some n" using assms(2) by (simp add: to_double_def)
  have "parseInt (CHR ''-'' # c # cs) = Js (JNum (- n))"
    unfolding parseInt_def t using hex tw v d by (simp add: Let_def del: foldl.simps)
  with s show ?thesis by simp
qed

lemma parseInt_show_int:
  assumes "\<bar>n\<bar> < 2 ^ 53"
  shows "parseInt (show_int n) = Js (JNum n)"
proof (cases "n < 0")
  case True
  with assms have "0 < - n" "- n < 2 ^ 53" by simp_all
  from parseInt_minus_digits10 [OF this] True show ?thesis by (simp add: show_int_def)
next
  case False
  with assms have "0 \<le> n" "n < 2 ^ 53" by simp_all
  from parseInt_digits10 [OF this] False show ?thesis by (simp add: show_int_def)
qed

section \<open>Audit trail of the routes\<close>

text \<open>
  C1, as the code has it. On the five routes that install an audit recorder
  (POST /api/patients, GET /api/patients/:id, POST /api/encounters,
  POST /api/prescriptions, GET /api/patients/:id/records) a request that ends with a
  success status, with the store taking the audit write, leaves exactly one new audit
  entry; its role is the role of the identity the token verifies to, its action and
  entity type are the ones the route declares. The list routes GET /api/patients and
  GET /api/audit-logs install no recorder and leave the store as it was.
\<close>

theorem audited_routes_record_once:
  "(r \<in> {PostPatients, GetPatient, PostEncounters, PostPrescriptions, GetPatientRecords}
      \<and> 200 \<le> statusCode (serve e r rq d) \<and> statusCode (serve e r rq d) < 300
      \<and> \<not> db_fault e AuditLogCreate \<longrightarrow>
      (\<exists>tok u entry. cookies_token rq = Some tok \<and> jwt_verify e tok = Some u
          \<and> audit_logs (db (serve e r rq d)) = audit_logs d @ [entry]
          \<and> user_role entry = role u
          \<and> (r, action entry, entity_type entry) \<in>
               {(PostPatients, ''CREATE'', ''patient''), (GetPatient, ''READ'', ''patient''),
                (PostEncounters, ''CREATE'', ''encounter''),
                (PostPrescriptions, ''CREATE'', ''prescription''),
                (GetPatientRecords, ''READ'', ''patient_records'')}))
   \<and> (r \<in> {GetPatients, GetAuditLogs} \<longrightarrow> db (serve e r rq d) = d)"
proof (intro conjI impI)
  assume a: "r \<in> {PostPatients, GetPatient, PostEncounters, PostPrescriptions, GetPatientRecords}
      \<and> 200 \<le> statusCode (serve e r rq d) \<and> statusCode (serve e r rq d) < 300
      \<and> \<not> db_fault e AuditLogCreate"
  then have ok: "200 \<le> statusCode (serve e r rq d)" "statusCode (serve e r rq d) < 300"
    "\<not> db_fault e AuditLogCreate" by simp_all
  from a consider "r = PostPatients" | "r = GetPatient" | "r = PostEncounters"
    | "r = PostPrescriptions" | "r = GetPatientRecords" by auto
  then show "\<exists>tok u entry. cookies_token rq = Some tok \<and> jwt_verify e tok = Some u
          \<and> audit_logs (db (serve e r rq d)) = audit_logs d @ [entry]
          \<and> user_role entry = role u
          \<and> (r, action entry, entity_type entry) \<in>
               {(PostPatients, ''CREATE'', ''patient''), (GetPatient, ''READ'', ''patient''),
                (PostEncounters, ''CREATE'', ''encounter''),
                (PostPrescriptions, ''CREATE'', ''prescription''),
                (GetPatientRecords, ''READ'', ''patient_records'')}"
  proof cases
    case 1
    have hr: "\<And>x. (\<not> has_id_param r \<longrightarrow> params_id (req x) = None) \<Longrightarrow>
        handler_result e x (result (post_patients e x))"
      using 1 by (simp add: post_patients_result)
    have "\<exists>tok u entry. cookies_token rq = Some tok \<and> jwt_verify e tok = Some u
          \<and> audit_logs (db (serve e r rq d)) = audit_logs d @ [entry]
          \<and> user_role entry = role u \<and> action entry = ''CREATE'' \<and> entity_type entry = ''patient''"
      by (rule audited_chain [where pre = "[validate PatientSchema]" and h = post_patients and r = r,
            OF _ hr _ ok])
         (simp_all add: serve_def 1)
    with 1 show ?thesis by auto
  next
    case 2
    have hr: "\<And>x. (\<not> has_id_param r \<longrightarrow> params_id (req x) = None) \<Longrightarrow>
        handler_result e x (result (get_patient e x))"
      by (simp add: get_patient_result)
    have "\<exists>tok u entry. cookies_token rq = Some tok \<and> jwt_verify e tok = Some u
          \<and> audit_logs (db (serve e r rq d)) = audit_logs d @ [entry]
          \<and> user_role entry = role u \<and> action entry = ''READ'' \<and> entity_type entry = ''patient''"
      by (rule audited_chain [where pre = "[]" and h = get_patient and r = r,
            OF _ hr _ ok])
         (simp_all add: serve_def 2)
    with 2 show ?thesis by auto
  next
    case 3
    have hr: "\<And>x. (\<not> has_id_param r \<longrightarrow> params_id (req x) = None) \<Longrightarrow>
        handler_result e x (result (post_encounters e x))"
      using 3 by (simp add: post_encounters_result)
    have "\<exists>tok u entry. cookies_token rq = Some tok \<and> jwt_verify e tok = Some u
          \<and> audit_logs (db (serve e r rq d)) = audit_logs d @ [entry]
          \<and> user_role entry = role u \<and> action entry = ''CREATE'' \<and> entity_type entry = ''encounter''"
      by (rule audited_chain [where pre = "[validate EncounterSchema]" and h = post_encounters
            and r = r, OF _ hr _ ok])
         (simp_all add: serve_def 3)
    with 3 show ?thesis by auto
  next
    case 4
    have hr: "\<And>x. (\<not> has_id_param r \<longrightarrow> params_id (req x) = None) \<Longrightarrow>
        handler_result e x (result (post_prescriptions e x))"
      using 4 by (simp add: post_prescriptions_result)
    have "\<exists>tok u entry. cookies_token rq = Some tok \<and> jwt_verify e tok = Some u
          \<and> audit_logs (db (serve e r rq d)) = audit_logs d @ [entry]
          \<and> user_role entry = role u \<and> action entry = ''CREATE''
          \<and> entity_type entry = ''prescription''"
      by (rule audited_chain [where pre = "[validate PrescriptionSchema]" and h = post_prescriptions
            and r = r, OF _ hr _ ok])
         (simp_all add: serve_def 4)
    with 4 show ?thesis by auto
  next
    case 5
    have hr: "\<And>x. (\<not> has_id_param r \<longrightarrow> params_id (req x) = None) \<Longrightarrow>
        handler_result e x (result (get_patient_records e x))"
      by (simp add: get_patient_records_result)
    have "\<exists>tok u entry. cookies_token rq = Some tok \<and> jwt_verify e tok = Some u
          \<and> audit_logs (db (serve e r rq d)) = audit_logs d @ [entry]
          \<and> user_role entry = role u \<and> action entry = ''READ''
          \<and> entity_type entry = ''patient_records''"
      by (rule audited_chain [where pre = "[]" and h = get_patient_records and r = r,
            OF _ hr _ ok])
         (simp_all add: serve_def 5)
    with 5 show ?thesis by auto
  qed
next
  assume "r \<in> {GetPatients, GetAuditLogs}"
  then show "db (serve e r rq d) = d"
    by (auto simp: serve_def unaudited_chain get_patients_db get_audit_logs_db
        simp del: run_chain.simps)
qed

text \<open>
  In the sample clinic: nurse_jane creates a patient, which leaves one entry with her
  role; her reading of the patient list leaves the store alone.
\<close>

theorem audited_routes_record_once_witness:
  "map user_role (audit_logs (db (serve clinic_env PostPatients
      (request_of (Some ''nurse-token'') None None new_patient) clinic))) = [Nurse]
   \<and> db (serve clinic_env GetPatients (request_of (Some ''nurse-token'') None None JNull) clinic)
       = clinic"
proof -
  let ?rq = "request_of (Some ''nurse-token'') None None new_patient"
  let ?s = "serve clinic_env PostPatients ?rq clinic"
  have ok: "PostPatients \<in> {PostPatients, GetPatient, PostEncounters, PostPrescriptions, GetPatientRecords}
      \<and> 200 \<le> statusCode ?s \<and> statusCode ?s < 300 \<and> \<not> db_fault clinic_env AuditLogCreate"
    by code_simp
  with audited_routes_record_once [of PostPatients clinic_env ?rq clinic]
  obtain tok u entry where *: "cookies_token ?rq = Some tok" "jwt_verify clinic_env tok = Some u"
    "audit_logs (db ?s) = audit_logs clinic @ [entry]" "user_role entry = role u"
    by blast
  from *(1) have "tok = ''nurse-token''" by (simp add: request_of_def)
  with *(2) have "u = nurse_jane" by (simp add: clinic_env_def)
  with *(3,4) have 1: "map user_role (audit_logs (db ?s)) = [Nurse]"
    by (simp add: clinic_def nurse_jane_def)
  have "GetPatients \<in> {GetPatients, GetAuditLogs}" by simp
  with audited_routes_record_once
    [of GetPatients clinic_env "request_of (Some ''nurse-token'') None None JNull" clinic]
  have 2: "db (serve clinic_env GetPatients (request_of (Some ''nurse-token'') None None JNull) clinic)
      = clinic"
    by blast
  from 1 2 show ?thesis by simp
qed

text \<open>
  C1 as stated fails on the list routes: dr_smith lists the patients and the admin
  lists the audit log, both with status 200, and the audit log stays empty.
\<close>

theorem list_routes_not_audited:
  "statusCode (serve clinic_env GetPatients (request_of (Some ''doctor-token'') None None JNull) clinic) = 200
   \<and> audit_logs (db (serve clinic_env GetPatients
        (request_of (Some ''doctor-token'') None None JNull) clinic)) = []
   \<and> statusCode (serve clinic_env GetAuditLogs (request_of (Some ''admin-token'') None None JNull) clinic) = 200
   \<and> audit_logs (db (serve clinic_env GetAuditLogs
        (request_of (Some ''admin-token'') None None JNull) clinic)) = []"
  by code_simp

section \<open>Role gate\<close>

text \<open>
  C2. The guard of \<open>requireRole roles\<close> calls the next handler, leaving the exchange
  as it is, exactly when an identity is attached and its role is among \<open>roles\<close>;
  otherwise it answers 403 with the body "Insufficient permissions", and without an
  identity it never calls the next handler.
\<close>

theorem requireRole_gate:
  "(calls_next (requireRole roles e x) \<longleftrightarrow> (\<exists>u. user (req x) = Some u \<and> role u \<in> set roles))
   \<and> (calls_next (requireRole roles e x) \<longrightarrow> requireRole roles e x = Next x)
   \<and> (\<not> calls_next (requireRole roles e x) \<longrightarrow>
        statusCode (result (requireRole roles e x)) = 403
        \<and> sent (result (requireRole roles e x))
            = sent x @ [Serialized (error_body ''Insufficient permissions'')])
   \<and> (user (req x) = None \<longrightarrow> \<not> calls_next (requireRole roles e x))"
  by (simp add: requireRole_def split: option.splits)

text \<open>
  The gate of POST /api/prescriptions lets dr_smith through and answers 403 to
  nurse_jane and to a request without identity.
\<close>

theorem requireRole_gate_witness:
  "requireRole [Doctor] clinic_env (exchange_of (Some dr_smith) None 200 [])
     = Next (exchange_of (Some dr_smith) None 200 [])
   \<and> \<not> calls_next (requireRole [Doctor] clinic_env (exchange_of (Some nurse_jane) None 200 []))
   \<and> statusCode (result (requireRole [Doctor] clinic_env (exchange_of (Some nurse_jane) None 200 []))) = 403
   \<and> \<not> calls_next (requireRole [Doctor] clinic_env (exchange_of None None 200 []))
   \<and> statusCode (result (requireRole [Doctor] clinic_env (exchange_of None None 200 []))) = 403"
  using requireRole_gate [of "[Doctor]" clinic_env "exchange_of (Some dr_smith) None 200 []"]
    requireRole_gate [of "[Doctor]" clinic_env "exchange_of (Some nurse_jane) None 200 []"]
    requireRole_gate [of "[Doctor]" clinic_env "exchange_of None None 200 []"]
  by (simp add: exchange_of_def dr_smith_def nurse_jane_def)

section \<open>Session middleware\<close>

text \<open>
  C3, as the code has it. When the token cookie is absent or empty the response is 401
  and the next handler is not called; when it is a non-empty string that fails
  verification the response is 403 and the next handler is not called; when it
  verifies, the decoded identity is attached to the request and the next handler is
  called.
\<close>

theorem authenticateToken_cases:
  "(cookies_token (req x) = None \<or> cookies_token (req x) = Some [] \<longrightarrow>
      \<not> calls_next (authenticateToken e x)
      \<and> statusCode (result (authenticateToken e x)) = 401
      \<and> sent (result (authenticateToken e x))
          = sent x @ [Serialized (error_body ''Access token required'')])
   \<and> (\<forall>tok. cookies_token (req x) = Some tok \<and> tok \<noteq> [] \<and> jwt_verify e tok = None \<longrightarrow>
      \<not> calls_next (authenticateToken e x)
      \<and> statusCode (result (authenticateToken e x)) = 403
      \<and> sent (result (authenticateToken e x)) = sent x @ [Serialized (error_body ''Invalid token'')])
   \<and> (\<forall>tok u. cookies_token (req x) = Some tok \<and> tok \<noteq> [] \<and> jwt_verify e tok = Some u \<longrightarrow>
      authenticateToken e x = Next (x\<lparr>req := (req x)\<lparr>user := Some u\<rparr>\<rparr>))"
  by (auto simp: authenticateToken_def)

text \<open>No cookie gives 401, a tampered token 403, the nurse's token her identity.\<close>

theorem authenticateToken_cases_witness:
  "statusCode (result (authenticateToken clinic_env
       (incoming GetPatients (request_of None None None JNull) clinic))) = 401
   \<and> \<not> calls_next (authenticateToken clinic_env
       (incoming GetPatients (request_of None None None JNull) clinic))
   \<and> statusCode (result (authenticateToken clinic_env
       (incoming GetPatients (request_of (Some ''tampered'') None None JNull) clinic))) = 403
   \<and> \<not> calls_next (authenticateToken clinic_env
       (incoming GetPatients (request_of (Some ''tampered'') None None JNull) clinic))
   \<and> authenticateToken clinic_env
       (incoming GetPatients (request_of (Some ''nurse-token'') None None JNull) clinic)
     = Next ((incoming GetPatients (request_of (Some ''nurse-token'') None None JNull) clinic)
         \<lparr>req := (req (incoming GetPatients (request_of (Some ''nurse-token'') None None JNull) clinic))
            \<lparr>user := Some nurse_jane\<rparr>\<rparr>)"
  using authenticateToken_cases
      [of "incoming GetPatients (request_of None None None JNull) clinic" clinic_env]
    authenticateToken_cases
      [of "incoming GetPatients (request_of (Some ''tampered'') None None JNull) clinic" clinic_env]
    authenticateToken_cases
      [of "incoming GetPatients (request_of (Some ''nurse-token'') None None JNull) clinic" clinic_env]
  by (simp add: request_of_def clinic_env_def)

text \<open>
  C3 as stated fails for a cookie that is present with an empty value: it does not
  verify, and the response is 401, not 403.
\<close>

theorem empty_token_unauthenticated:
  "cookies_token (req (incoming GetPatients (request_of (Some []) None None JNull) clinic)) = Some []
   \<and> jwt_verify clinic_env [] = None
   \<and> statusCode (result (authenticateToken clinic_env
        (incoming GetPatients (request_of (Some []) None None JNull) clinic))) = 401"
  by (simp add: authenticateToken_def request_of_def clinic_env_def)

section \<open>Audit recorder\<close>

text \<open>
  C4, as the code has it. For one call of \<^verbatim>\<open>res.send\<close> through one audit recorder,
  new audit entries are persisted exactly when the status is in [200,300), an identity is
  attached and the audit step itself goes through (the data, when it is a string, parses
  as JSON, the derived identifier is null or a number, the store accepts the write).
  They are then as many as the data passes through the replaced \<^verbatim>\<open>send\<close>: one for a
  string, as \<^verbatim>\<open>res.json\<close> hands it over, two for an object, an array or a boolean.
  With an error status, or without identity, the store is left as it was.
\<close>

theorem audit_persisted_iff:
  assumes "send_wrappers x = [(a, t)]"
  shows "\<exists>new. audit_logs (db (res_send e data x)) = audit_logs (db x) @ new
           \<and> (new \<noteq> [] \<longleftrightarrow>
                200 \<le> statusCode x \<and> statusCode x < 300 \<and> user (req x) \<noteq> None
                \<and> recordable e (req x) data)
           \<and> (new \<noteq> [] \<longrightarrow> length new = passes data)
           \<and> (\<not> (200 \<le> statusCode x \<and> statusCode x < 300) \<or> user (req x) = None \<longrightarrow>
                db (res_send e data x) = db x)"
proof -
  let ?new = "recorded e a t data x"
  have 1: "audit_logs (db (res_send e data x)) = audit_logs (db x) @ ?new"
    by (simp add: res_send_one_db [OF assms])
  have pos: "0 < passes data"
    by (simp add: passes_def split: option.splits)
  have "?new \<noteq> [] \<longleftrightarrow> 0 < length ?new" by simp
  also have "\<dots> \<longleftrightarrow> 200 \<le> statusCode x \<and> statusCode x < 300 \<and> user (req x) \<noteq> None
                \<and> recordable e (req x) data"
    using pos by (simp only: length_recorded split: if_splits) simp
  finally have 2: "?new \<noteq> [] \<longleftrightarrow> 200 \<le> statusCode x \<and> statusCode x < 300
      \<and> user (req x) \<noteq> None \<and> recordable e (req x) data" .
  have 3: "?new \<noteq> [] \<longrightarrow> length ?new = passes data"
    using 2 by (simp add: length_recorded)
  have 4: "\<not> (200 \<le> statusCode x \<and> statusCode x < 300) \<or> user (req x) = None \<longrightarrow>
      db (res_send e data x) = db x"
  proof
    assume "\<not> (200 \<le> statusCode x \<and> statusCode x < 300) \<or> user (req x) = None"
    then have "?new = []" by (auto simp: recorded_def)
    then show "db (res_send e data x) = db x"
      by (simp add: res_send_one_db [OF assms])
  qed
  show ?thesis
    by (rule exI [of _ ?new]) (use 1 2 3 4 in blast)
qed

text \<open>
  nurse_jane reads patient 1: with status 200 the log grows by one entry when the
  handler answers with \<^verbatim>\<open>res.json\<close>, by two when it hands an object to \<^verbatim>\<open>res.send\<close>;
  with status 404 and without identity the store is unchanged.
\<close>

theorem audit_persisted_iff_witness:
  "length (audit_logs (db (res_send clinic_env (Serialized (patient_json jane_doe))
       (exchange_of (Some nurse_jane) (Some ''1'') 200 [(''READ'', ''patient'')])))) = 1
   \<and> length (audit_logs (db (res_send clinic_env (Object [(''id'', JNum 1)])
       (exchange_of (Some nurse_jane) (Some ''1'') 200 [(''READ'', ''patient'')])))) = 2
   \<and> db (res_send clinic_env (Serialized (error_body ''Patient not found''))
       (exchange_of (Some nurse_jane) (Some ''9'') 404 [(''READ'', ''patient'')])) = clinic
   \<and> db (res_send clinic_env (Serialized (patient_json jane_doe))
       (exchange_of None (Some ''1'') 200 [(''READ'', ''patient'')])) = clinic"
proof -
  let ?x = "exchange_of (Some nurse_jane) (Some ''1'') 200 [(''READ'', ''patient'')]"
  let ?x404 = "exchange_of (Some nurse_jane) (Some ''9'') 404 [(''READ'', ''patient'')]"
  let ?anon = "exchange_of None (Some ''1'') 200 [(''READ'', ''patient'')]"
  have w: "send_wrappers ?x = [(''READ'', ''patient'')]"
    "send_wrappers ?x404 = [(''READ'', ''patient'')]"
    "send_wrappers ?anon = [(''READ'', ''patient'')]"
    by (simp_all add: exchange_of_def)
  have c1: "200 \<le> statusCode ?x \<and> statusCode ?x < 300 \<and> user (req ?x) \<noteq> None
      \<and> recordable clinic_env (req ?x) (Serialized (patient_json jane_doe))"
    by code_simp
  have c2: "200 \<le> statusCode ?x \<and> statusCode ?x < 300 \<and> user (req ?x) \<noteq> None
      \<and> recordable clinic_env (req ?x) (Object [(''id'', JNum 1)])"
    by code_simp
  have e: "audit_logs (db ?x) = []" by (simp add: exchange_of_def clinic_def)
  from audit_persisted_iff [OF w(1), of clinic_env "Serialized (patient_json jane_doe)"] c1
  obtain new where "audit_logs (db (res_send clinic_env (Serialized (patient_json jane_doe)) ?x))
      = audit_logs (db ?x) @ new" "length new = passes (Serialized (patient_json jane_doe))"
    by blast
  then have 1: "length (audit_logs (db (res_send clinic_env (Serialized (patient_json jane_doe)) ?x))) = 1"
    using e by (simp add: passes_def)
  from audit_persisted_iff [OF w(1), of clinic_env "Object [(''id'', JNum 1)]"] c2
  obtain new where "audit_logs (db (res_send clinic_env (Object [(''id'', JNum 1)]) ?x))
      = audit_logs (db ?x) @ new" "length new = passes (Object [(''id'', JNum 1)])"
    by blast
  then have 2: "length (audit_logs (db (res_send clinic_env (Object [(''id'', JNum 1)]) ?x))) = 2"
    using e by (simp add: passes_def)
  from audit_persisted_iff [OF w(2), of clinic_env "Serialized (error_body ''Patient not found'')"]
  have 3: "db (res_send clinic_env (Serialized (error_body ''Patient not found'')) ?x404) = clinic"
    by (auto simp: exchange_of_def)
  from audit_persisted_iff [OF w(3), of clinic_env "Serialized (patient_json jane_doe)"]
  have 4: "db (res_send clinic_env (Serialized (patient_json jane_doe)) ?anon) = clinic"
    by (auto simp: exchange_of_def)
  from 1 2 3 4 show ?thesis by simp
qed

text \<open>
  C4 as stated fails: with status 200 and an identity attached, a handler that sends
  the plain text \<^verbatim>\<open>OK\<close> gets no audit entry, because \<^verbatim>\<open>JSON.parse\<close> raises and the
  recorder only logs the error.
\<close>

theorem unparsable_body_not_audited:
  "statusCode (exchange_of (Some nurse_jane) None 200 [(''READ'', ''patient'')]) = 200
   \<and> user (req (exchange_of (Some nurse_jane) None 200 [(''READ'', ''patient'')])) = Some nurse_jane
   \<and> JSON_parse clinic_env ''OK'' = None
   \<and> audit_logs (db (res_send clinic_env (Text ''OK'')
        (exchange_of (Some nurse_jane) None 200 [(''READ'', ''patient'')]))) = []
   \<and> console (res_send clinic_env (Text ''OK'')
        (exchange_of (Some nurse_jane) None 200 [(''READ'', ''patient'')]))
       = [''Error in audit log middleware:'']"
  by code_simp

text \<open>
  C5, as the code has it. Every entry that one call of \<^verbatim>\<open>res.send\<close> through one
  audit recorder persists was written with a success status and an identity \<open>u\<close>
  attached, and carries the role of \<open>u\<close>, the declared action and the declared entity
  type. Its entity_id is the integer that \<^verbatim>\<open>parseInt\<close> reads from the path parameter
  when that parameter is present and the integer is not 0, null when it is present and
  \<^verbatim>\<open>parseInt\<close> gives 0 or \<^verbatim>\<open>NaN\<close>; without a path parameter it is the \<^verbatim>\<open>id\<close> of the
  JSON body when that is a nonzero number, and null otherwise.
\<close>

theorem audit_entry_fields:
  assumes "send_wrappers x = [(a, t)]"
    and "audit_logs (db (res_send e data x)) = audit_logs (db x) @ new"
    and "entry \<in> set new"
  shows "\<exists>u pd. user (req x) = Some u \<and> parsedData e data = Inr pd
           \<and> 200 \<le> statusCode x \<and> statusCode x < 300
           \<and> user_role entry = role u \<and> action entry = a \<and> entity_type entry = t
           \<and> entity_id entry = spec_entity_id (req x) pd"
proof -
  from assms(2) have "new = recorded e a t data x"
    by (simp add: res_send_one_db [OF assms(1)])
  with assms(3) have "entry \<in> set (recorded e a t data x)" by simp
  from recorded_fields [OF this] show ?thesis by blast
qed

text \<open>
  The entry for nurse_jane reading patient 1 has her role and the identifier 1, also
  when the path parameter is written with a no-break space in front.
\<close>

theorem audit_entry_fields_witness:
  "audit_logs (db (res_send clinic_env (Serialized (patient_json jane_doe))
       (exchange_of (Some nurse_jane) (Some [CHR 0xC2, CHR 0xA0, CHR ''1'']) 200
          [(''READ'', ''patient'')])))
     = [\<lparr>audit_id = 1, user_role = Nurse, action = ''READ'', entity_type = ''patient'',
          entity_id = Some 1, timestamp = 1000\<rparr>]
   \<and> role nurse_jane = Nurse
   \<and> spec_entity_id (req (exchange_of (Some nurse_jane) (Some [CHR 0xC2, CHR 0xA0, CHR ''1'']) 200
          [(''READ'', ''patient'')]))
        (patient_json jane_doe) = Some 1"
proof -
  let ?x = "exchange_of (Some nurse_jane) (Some [CHR 0xC2, CHR 0xA0, CHR ''1'']) 200
    [(''READ'', ''patient'')]"
  let ?entry = "\<lparr>audit_id = 1, user_role = Nurse, action = ''READ'', entity_type = ''patient'',
          entity_id = Some 1, timestamp = 1000\<rparr>"
  have w: "send_wrappers ?x = [(''READ'', ''patient'')]"
    by (simp add: exchange_of_def)
  have p: "audit_logs (db (res_send clinic_env (Serialized (patient_json jane_doe)) ?x))
      = audit_logs (db ?x) @ [?entry]"
    by code_simp
  have m: "?entry \<in> set [?entry]" by simp
  from audit_entry_fields [OF w p m] obtain u pd where
    *: "user (req ?x) = Some u" "parsedData clinic_env (Serialized (patient_json jane_doe)) = Inr pd"
      "user_role ?entry = role u" "entity_id ?entry = spec_entity_id (req ?x) pd"
    by blast
  from *(1) have "u = nurse_jane" by (simp add: exchange_of_def)
  moreover from *(2) have "pd = patient_json jane_doe" by (simp add: parsedData_def)
  ultimately show ?thesis using p * by (simp add: exchange_of_def clinic_def)
qed

text \<open>
  C5 as stated fails where the path identifier is 0: nurse_jane reads the patient with
  identifier 0 through GET /api/patients/0, the response is 200, and the entry has no
  entity_id although the path has the integer 0.
\<close>

theorem path_id_zero_recorded_null:
  "parseInt ''0'' = Js (JNum 0)
   \<and> statusCode (serve clinic_env GetPatient
        (request_of (Some ''nurse-token'') (Some ''0'') None JNull) clinic_zero) = 200
   \<and> audit_logs (db (serve clinic_env GetPatient
        (request_of (Some ''nurse-token'') (Some ''0'') None JNull) clinic_zero))
       = [\<lparr>audit_id = 1, user_role = Nurse, action = ''READ'', entity_type = ''patient'',
            entity_id = None, timestamp = 1000\<rparr>]"
  by code_simp

text \<open>
  C6, as the code has it. The recorder has no once-only guard: with a success status and
  an identity attached, its audit step runs once for every pass through the replaced
  \<^verbatim>\<open>send\<close>, each run leaving either an audit entry or an error line. One call of
  \<^verbatim>\<open>res.send\<close> is one pass for a string (so for every \<^verbatim>\<open>res.json\<close>, which is what
  the routes use) and two passes for an object, an array or a boolean, which Express
  sends back through \<^verbatim>\<open>this.json\<close> and \<^verbatim>\<open>this.send\<close>. A handler that writes the
  data \<open>ds\<close> triggers the step once for each pass of each of them, and leaves that many
  entries when every step goes through.
\<close>

theorem audit_once_per_send:
  assumes "send_wrappers x = [(a, t)]" and "200 \<le> statusCode x" and "statusCode x < 300"
    and "user (req x) = Some u"
  shows "length (audit_logs (db (send_all e ds x))) + length (console (send_all e ds x))
           = length (audit_logs (db x)) + length (console x) + sum_list (map passes ds)
         \<and> ((\<forall>data \<in> set ds. recordable e (req x) data) \<longrightarrow>
              length (audit_logs (db (send_all e ds x)))
                = length (audit_logs (db x)) + sum_list (map passes ds))"
  using assms
proof (induction ds arbitrary: x)
  case Nil
  then show ?case by simp
next
  case (Cons data ds)
  let ?y = "res_send e data x"
  have y: "send_wrappers ?y = [(a, t)]" "200 \<le> statusCode ?y" "statusCode ?y < 300"
    "user (req ?y) = Some u"
    using Cons.prems by simp_all
  have logs: "length (audit_logs (db ?y)) = length (audit_logs (db x)) +
      (if recordable e (req x) data then passes data else 0)"
    using Cons.prems by (simp add: res_send_one_db length_recorded)
  have cons: "length (console ?y) = length (console x) +
      (if \<not> recordable e (req x) data then passes data else 0)"
    using Cons.prems by (simp add: res_send_one_console)
  from logs cons have step: "length (audit_logs (db ?y)) + length (console ?y)
      = length (audit_logs (db x)) + length (console x) + passes data"
    by simp
  from Cons.IH [OF y] step logs show ?case by simp
qed

text \<open>
  A handler that sends the created patient as an object and then the text \<^verbatim>\<open>OK\<close>:
  three runs of the audit step, two entries and one error line.
\<close>

theorem audit_once_per_send_witness:
  "length (audit_logs (db (send_all clinic_env
       [Object [(''id'', JNum 2), (''message'', JStr ''Patient created successfully'')], Text ''OK'']
       (exchange_of (Some nurse_jane) None 201 [(''CREATE'', ''patient'')]))))
   + length (console (send_all clinic_env
       [Object [(''id'', JNum 2), (''message'', JStr ''Patient created successfully'')], Text ''OK'']
       (exchange_of (Some nurse_jane) None 201 [(''CREATE'', ''patient'')]))) = 3"
proof -
  let ?x = "exchange_of (Some nurse_jane) None 201 [(''CREATE'', ''patient'')]"
  have h: "send_wrappers ?x = [(''CREATE'', ''patient'')]" "200 \<le> statusCode ?x"
    "statusCode ?x < 300" "user (req ?x) = Some nurse_jane"
    by (simp_all add: exchange_of_def)
  from audit_once_per_send [OF h, of clinic_env
      "[Object [(''id'', JNum 2), (''message'', JStr ''Patient created successfully'')], Text ''OK'']"]
  show ?thesis by (simp add: exchange_of_def clinic_def passes_def)
qed

text \<open>
  C6 as stated fails: a handler that calls \<^verbatim>\<open>send\<close> twice with the created patient,
  status 201, gets two audit entries for the one request.
\<close>

theorem two_sends_two_entries:
  "statusCode (exchange_of (Some nurse_jane) None 201 [(''CREATE'', ''patient'')]) = 201
   \<and> audit_logs (db (exchange_of (Some nurse_jane) None 201 [(''CREATE'', ''patient'')])) = []
   \<and> map entity_id (audit_logs (db (send_all clinic_env
        [Serialized (created_json 2 ''Patient created successfully''),
         Serialized (created_json 2 ''Patient created successfully'')]
        (exchange_of (Some nurse_jane) None 201 [(''CREATE'', ''patient'')]))))
       = [Some 2, Some 2]"
  by code_simp

text \<open>
  C7. Whatever happens in the audit step, for every environment (so also when
  \<^verbatim>\<open>JSON.parse\<close> raises or the store rejects the audit write) and every number of
  installed recorders, \<^verbatim>\<open>res.send\<close> returns normally, the original \<^verbatim>\<open>send\<close> is called
  with the handler's data unchanged, after what had been sent before, and the status is
  unchanged. When the data is an object, an array or a boolean, the original \<^verbatim>\<open>send\<close>
  passes it on, and is called once more with the serialised value; nothing else is sent.
\<close>

theorem response_unaffected:
  "sent (res_send e data x)
     = sent x @ data # (case passed_to_json data of None \<Rightarrow> [] | Some v \<Rightarrow> [Serialized v])
   \<and> statusCode (res_send e data x) = statusCode x"
  by simp

text \<open>
  The text \<^verbatim>\<open>OK\<close>, on which the audit step fails, is sent as it is with status 201; an
  object is sent, and then its serialisation.
\<close>

theorem response_unaffected_witness:
  "sent (res_send clinic_env (Text ''OK'') (exchange_of (Some nurse_jane) None 201 [(''CREATE'', ''patient'')]))
     = [Text ''OK'']
   \<and> statusCode (res_send clinic_env (Text ''OK'')
        (exchange_of (Some nurse_jane) None 201 [(''CREATE'', ''patient'')])) = 201
   \<and> sent (res_send clinic_env (Object [(''id'', JNum 2)])
        (exchange_of (Some nurse_jane) None 201 [(''CREATE'', ''patient'')]))
     = [Object [(''id'', JNum 2)], Serialized (JObj [(''id'', JNum 2)])]"
  using response_unaffected
    [of clinic_env "Text ''OK''" "exchange_of (Some nurse_jane) None 201 [(''CREATE'', ''patient'')]"]
    response_unaffected
    [of clinic_env "Object [(''id'', JNum 2)]"
      "exchange_of (Some nurse_jane) None 201 [(''CREATE'', ''patient'')]"]
  by (simp add: exchange_of_def)

text \<open>
  C10. For one call of \<^verbatim>\<open>res.send\<close> through one audit recorder with a success
  status, an identity attached, data that parses and a store that takes the write: when
  the path parameter is present and \<^verbatim>\<open>parseInt\<close> reads 0 or \<^verbatim>\<open>NaN\<close> from it, or there
  is no path parameter and the \<^verbatim>\<open>id\<close> of the body is 0 or absent, entries are
  persisted, one for each pass of the data, and each has entity_id null. And no entry
  that a call persists has entity_id 0.
\<close>

theorem falsy_entity_id_null:
  assumes "send_wrappers x = [(a, t)]"
    and "audit_logs (db (res_send e data x)) = audit_logs (db x) @ new"
  shows "(200 \<le> statusCode x \<and> statusCode x < 300 \<and> user (req x) = Some u
            \<and> parsedData e data = Inr pd \<and> \<not> db_fault e AuditLogCreate
            \<and> (truthy_str (params_id (req x))
                 \<and> parseInt (the (params_id (req x))) \<in> {NaN, Js (JNum 0)}
               \<or> \<not> truthy_str (params_id (req x)) \<and> get_prop ''id'' pd \<in> {Undefined, Js (JNum 0)})
          \<longrightarrow> length new = passes data
              \<and> (\<forall>entry \<in> set new. user_role entry = role u \<and> action entry = a
                    \<and> entity_type entry = t \<and> entity_id entry = None))
         \<and> (\<forall>entry \<in> set new. entity_id entry \<noteq> Some 0)"
proof -
  from assms(2) have new: "new = recorded e a t data x"
    by (simp add: res_send_one_db [OF assms(1)])
  have zero: "\<forall>entry \<in> set new. entity_id entry \<noteq> Some 0"
  proof
    fix entry
    assume "entry \<in> set new"
    with new have "entry \<in> set (recorded e a t data x)" by simp
    from recorded_fields [OF this] spec_entity_id_nonzero
    show "entity_id entry \<noteq> Some 0" by fastforce
  qed
  have null: "length new = passes data
      \<and> (\<forall>entry \<in> set new. user_role entry = role u \<and> action entry = a
            \<and> entity_type entry = t \<and> entity_id entry = None)"
    if h: "200 \<le> statusCode x \<and> statusCode x < 300 \<and> user (req x) = Some u
            \<and> parsedData e data = Inr pd \<and> \<not> db_fault e AuditLogCreate
            \<and> (truthy_str (params_id (req x))
                 \<and> parseInt (the (params_id (req x))) \<in> {NaN, Js (JNum 0)}
               \<or> \<not> truthy_str (params_id (req x)) \<and> get_prop ''id'' pd \<in> {Undefined, Js (JNum 0)})"
  proof -
    from h have n: "or_null (entityId (req x) pd) = Js JNull"
      by (cases "params_id (req x)") (auto simp: or_null_def entityId_def)
    with h have r: "recordable e (req x) data"
      by (simp add: recordable_def)
    from h have s: "spec_entity_id (req x) pd = None"
      by (cases "params_id (req x)") (auto simp: spec_entity_id_def)
    from h r have len: "length new = passes data"
      unfolding new by (simp add: length_recorded)
    have "user_role entry = role u \<and> action entry = a \<and> entity_type entry = t
        \<and> entity_id entry = None" if "entry \<in> set new" for entry
    proof -
      from that new have "entry \<in> set (recorded e a t data x)" by simp
      from recorded_fields [OF this] h s show ?thesis by auto
    qed
    with len show ?thesis by blast
  qed
  from null zero show ?thesis by blast
qed

text \<open>
  A path parameter that is no number, and a created row whose identifier is 0 on a route
  without path parameter: both entries have entity_id null.
\<close>

theorem falsy_entity_id_null_witness:
  "map entity_id (audit_logs (db (res_send clinic_env (Serialized (patient_json jane_doe))
       (exchange_of (Some nurse_jane) (Some ''abc'') 200 [(''READ'', ''patient'')])))) = [None]
   \<and> map entity_id (audit_logs (db (res_send clinic_env
       (Serialized (created_json 0 ''Patient created successfully''))
       (exchange_of (Some nurse_jane) None 201 [(''CREATE'', ''patient'')])))) = [None]"
proof -
  let ?x = "exchange_of (Some nurse_jane) (Some ''abc'') 200 [(''READ'', ''patient'')]"
  let ?y = "exchange_of (Some nurse_jane) None 201 [(''CREATE'', ''patient'')]"
  let ?b = "created_json 0 ''Patient created successfully''"
  let ?ex = "\<lparr>audit_id = 1, user_role = Nurse, action = ''READ'', entity_type = ''patient'',
          entity_id = None, timestamp = 1000\<rparr>"
  let ?ey = "\<lparr>audit_id = 1, user_role = Nurse, action = ''CREATE'', entity_type = ''patient'',
          entity_id = None, timestamp = 1000\<rparr>"
  have w: "send_wrappers ?x = [(''READ'', ''patient'')]" "send_wrappers ?y = [(''CREATE'', ''patient'')]"
    by (simp_all add: exchange_of_def)
  have px: "audit_logs (db (res_send clinic_env (Serialized (patient_json jane_doe)) ?x))
      = audit_logs (db ?x) @ [?ex]"
    by code_simp
  have py: "audit_logs (db (res_send clinic_env (Serialized ?b) ?y)) = audit_logs (db ?y) @ [?ey]"
    by code_simp
  have hx: "200 \<le> statusCode ?x \<and> statusCode ?x < 300 \<and> user (req ?x) = Some nurse_jane
      \<and> parsedData clinic_env (Serialized (patient_json jane_doe)) = Inr (patient_json jane_doe)
      \<and> \<not> db_fault clinic_env AuditLogCreate
      \<and> (truthy_str (params_id (req ?x)) \<and> parseInt (the (params_id (req ?x))) \<in> {NaN, Js (JNum 0)}
         \<or> \<not> truthy_str (params_id (req ?x))
           \<and> get_prop ''id'' (patient_json jane_doe) \<in> {Undefined, Js (JNum 0)})"
    by code_simp
  have hy: "200 \<le> statusCode ?y \<and> statusCode ?y < 300 \<and> user (req ?y) = Some nurse_jane
      \<and> parsedData clinic_env (Serialized ?b) = Inr ?b
      \<and> \<not> db_fault clinic_env AuditLogCreate
      \<and> (truthy_str (params_id (req ?y)) \<and> parseInt (the (params_id (req ?y))) \<in> {NaN, Js (JNum 0)}
         \<or> \<not> truthy_str (params_id (req ?y)) \<and> get_prop ''id'' ?b \<in> {Undefined, Js (JNum 0)})"
    by code_simp
  from falsy_entity_id_null [OF w(1) px, of nurse_jane "patient_json jane_doe"] hx
  have "\<forall>entry \<in> set [?ex]. entity_id entry = None"
    by blast
  with px have 1: "map entity_id (audit_logs (db (res_send clinic_env (Serialized (patient_json jane_doe)) ?x)))
      = [None]"
    by (simp add: exchange_of_def clinic_def)
  from falsy_entity_id_null [OF w(2) py, of nurse_jane ?b] hy
  have "\<forall>entry \<in> set [?ey]. entity_id entry = None"
    by blast
  with py have 2: "map entity_id (audit_logs (db (res_send clinic_env (Serialized ?b) ?y))) = [None]"
    by (simp add: exchange_of_def clinic_def)
  from 1 2 show ?thesis by simp
qed

section \<open>Patient search\<close>

text \<open>
  C8, as the code has it. For an authenticated GET /api/patients with the store
  answering, the response is 200 with at most 50 rows of the patient table, newest first
  by creation time. With a non-empty \<^verbatim>\<open>search\<close> string, every returned row has a
  \<^verbatim>\<open>full_name\<close> that matches the pattern \<^verbatim>\<open>%search%\<close> under \<^verbatim>\<open>ILIKE\<close> or a
  \<^verbatim>\<open>phone\<close> that matches it under \<^verbatim>\<open>LIKE\<close>, and a patient matching in this way is
  left out only when 50 rows are returned, none of them older than it. The search string
  is part of the pattern as it is: in it \<^verbatim>\<open>%\<close> stands for any text, \<^verbatim>\<open>_\<close> for any
  character, and a backslash takes the next character literally. For a search string
  without these three characters, a phone matches exactly when it contains the string
  (case-sensitively), and, where the store folds the ASCII letters, a name matches
  exactly when it contains the string with the case of the ASCII letters ignored.
\<close>

theorem patient_search:
  assumes "cookies_token rq = Some tok" and "tok \<noteq> []" and "jwt_verify e tok = Some u"
    and "\<not> db_fault e PatientFindMany"
  shows "\<exists>rows. statusCode (serve e GetPatients rq d) = 200
     \<and> sent (serve e GetPatients rq d) = [Serialized (JArr (map patient_json rows))]
     \<and> length rows \<le> 50
     \<and> sorted_wrt (\<lambda>p q. patient_created_at q \<le> patient_created_at p) rows
     \<and> set rows \<subseteq> set (patients d)
     \<and> (\<forall>s. query_search rq = Some s \<and> s \<noteq> [] \<longrightarrow>
          (\<forall>p \<in> set rows. ilike e (full_name p) (''%'' @ s @ ''%'')
              \<or> (\<exists>ph. phone p = Some ph \<and> like ph (''%'' @ s @ ''%'')))
          \<and> (\<forall>p \<in> set (patients d).
                (ilike e (full_name p) (''%'' @ s @ ''%'')
                   \<or> (\<exists>ph. phone p = Some ph \<and> like ph (''%'' @ s @ ''%'')))
                \<and> p \<notin> set rows \<longrightarrow>
                length rows = 50 \<and> (\<forall>r \<in> set rows. patient_created_at p \<le> patient_created_at r))
          \<and> (plain s \<longrightarrow>
                (\<forall>ph. like ph (''%'' @ s @ ''%'') \<longleftrightarrow> contains ph s)
                \<and> (pg_lower e = map ascii_lower \<longrightarrow>
                     (\<forall>n. ilike e n (''%'' @ s @ ''%'') \<longleftrightarrow> icontains n s))))"
proof -
  let ?m = "filter (patient_where e (query_search rq)) (patients d)"
  let ?rows = "take 50 (sort_key (\<lambda>p. - patient_created_at p) ?m)"
  have st: "statusCode (serve e GetPatients rq d) = 200"
    by (simp add: serve_get_patients [OF assms])
  have se: "sent (serve e GetPatients rq d) = [Serialized (JArr (map patient_json ?rows))]"
    by (simp add: serve_get_patients [OF assms])
  have len: "length ?rows \<le> 50" by simp
  have srt: "sorted_wrt (\<lambda>p q. patient_created_at q \<le> patient_created_at p) ?rows"
    by (rule newest_sorted)
  have "set ?rows \<subseteq> set ?m" by (rule newest_subset)
  then have sub: "set ?rows \<subseteq> set (patients d)" by auto
  have match: "\<forall>p \<in> set ?rows. ilike e (full_name p) (''%'' @ s @ ''%'')
      \<or> (\<exists>ph. phone p = Some ph \<and> like ph (''%'' @ s @ ''%''))"
    if "query_search rq = Some s" "s \<noteq> []" for s
    using rows_match [OF that] by blast
  have compl: "length ?rows = 50 \<and> (\<forall>r \<in> set ?rows. patient_created_at p \<le> patient_created_at r)"
    if q: "query_search rq = Some s" "s \<noteq> []" and p: "p \<in> set (patients d)"
      "ilike e (full_name p) (''%'' @ s @ ''%'')
         \<or> (\<exists>ph. phone p = Some ph \<and> like ph (''%'' @ s @ ''%''))" "p \<notin> set ?rows"
    for s p
  proof -
    from q p have "p \<in> set ?m" by (simp add: patient_where_search)
    from rows_complete [OF this p(3)] show ?thesis .
  qed
  have lit: "plain s \<longrightarrow>
      (\<forall>ph. like ph (''%'' @ s @ ''%'') \<longleftrightarrow> contains ph s)
      \<and> (pg_lower e = map ascii_lower \<longrightarrow>
           (\<forall>n. ilike e n (''%'' @ s @ ''%'') \<longleftrightarrow> icontains n s))" for s
    using like_plain_contains [of s] ilike_plain [of e s] by blast
  from match compl lit have
    "\<forall>s. query_search rq = Some s \<and> s \<noteq> [] \<longrightarrow>
          (\<forall>p \<in> set ?rows. ilike e (full_name p) (''%'' @ s @ ''%'')
              \<or> (\<exists>ph. phone p = Some ph \<and> like ph (''%'' @ s @ ''%'')))
          \<and> (\<forall>p \<in> set (patients d).
                (ilike e (full_name p) (''%'' @ s @ ''%'')
                   \<or> (\<exists>ph. phone p = Some ph \<and> like ph (''%'' @ s @ ''%'')))
                \<and> p \<notin> set ?rows \<longrightarrow>
                length ?rows = 50 \<and> (\<forall>r \<in> set ?rows. patient_created_at p \<le> patient_created_at r))
          \<and> (plain s \<longrightarrow>
                (\<forall>ph. like ph (''%'' @ s @ ''%'') \<longleftrightarrow> contains ph s)
                \<and> (pg_lower e = map ascii_lower \<longrightarrow>
                     (\<forall>n. ilike e n (''%'' @ s @ ''%'') \<longleftrightarrow> icontains n s)))"
    by (intro allI impI conjI) blast+
  with st se len srt sub show ?thesis by (intro exI [of _ ?rows] conjI)
qed

text \<open>dr_smith searches for \<^verbatim>\<open>jane\<close> and gets Jane Doe, by her name.\<close>

theorem patient_search_witness:
  "statusCode (serve clinic_env GetPatients
      (request_of (Some ''doctor-token'') None (Some ''jane'') JNull) clinic) = 200
   \<and> sent (serve clinic_env GetPatients
      (request_of (Some ''doctor-token'') None (Some ''jane'') JNull) clinic)
     = [Serialized (JArr [patient_json jane_doe])]
   \<and> icontains (full_name jane_doe) ''jane''"
proof -
  let ?rq = "request_of (Some ''doctor-token'') None (Some ''jane'') JNull"
  have h: "cookies_token ?rq = Some ''doctor-token''" "''doctor-token'' \<noteq> []"
    "jwt_verify clinic_env ''doctor-token'' = Some dr_smith"
    "\<not> db_fault clinic_env PatientFindMany"
    by (simp_all add: request_of_def clinic_env_def)
  from patient_search [OF h, of clinic] have 1: "statusCode (serve clinic_env GetPatients ?rq clinic) = 200"
    by (elim exE conjE)
  have 2: "sent (serve clinic_env GetPatients ?rq clinic) = [Serialized (JArr [patient_json jane_doe])]
      \<and> icontains (full_name jane_doe) ''jane''"
    by code_simp
  from 1 2 show ?thesis by simp
qed

text \<open>
  C8 as stated fails in both directions. The phone of Jane Doe contains \<^verbatim>\<open>ext\<close> when
  case is ignored, her name does not, and the search for \<^verbatim>\<open>ext\<close> returns no row. And
  the search for \<^verbatim>\<open>_\<close> returns Jane Doe, whose name and phone have no underscore.
\<close>

theorem phone_search_case_sensitive:
  "phone jane_doe = Some ''555-EXT-7''
   \<and> icontains ''555-EXT-7'' ''ext''
   \<and> jane_doe \<in> set (patients clinic)
   \<and> statusCode (serve clinic_env GetPatients
        (request_of (Some ''doctor-token'') None (Some ''ext'') JNull) clinic) = 200
   \<and> sent (serve clinic_env GetPatients
        (request_of (Some ''doctor-token'') None (Some ''ext'') JNull) clinic)
       = [Serialized (JArr [])]
   \<and> \<not> icontains (full_name jane_doe) ''_''
   \<and> \<not> icontains ''555-EXT-7'' ''_''
   \<and> sent (serve clinic_env GetPatients
        (request_of (Some ''doctor-token'') None (Some ''_'') JNull) clinic)
       = [Serialized (JArr [patient_json jane_doe])]"
  by code_simp

section \<open>Encounter for a missing patient\<close>

text \<open>
  The handler works with \<^verbatim>\<open>parseInt(patient_id)\<close>: when that is the identifier of no
  patient the store is left as it was, and when it is an integer and the store answers
  the lookup, the response is 404.
\<close>

lemma post_encounters_unknown:
  assumes "cookies_token rq = Some tok" and "tok \<noteq> []" and "jwt_verify e tok = Some u"
    and "role u \<in> {Doctor, Nurse}"
    and "joi e EncounterSchema (body rq) = []"
    and "\<forall>p \<in> set (patients d).
           parseInt_val (get_prop ''patient_id'' (body rq)) \<noteq> Js (JNum (patient_id p))"
  shows "db (serve e PostEncounters rq d) = d"
    and "db_fault e PatientFindUnique
           \<or> int_key (parseInt_val (get_prop ''patient_id'' (body rq))) = None
         \<Longrightarrow> statusCode (serve e PostEncounters rq d) = 500"
    and "\<not> db_fault e PatientFindUnique
         \<Longrightarrow> int_key (parseInt_val (get_prop ''patient_id'' (body rq))) \<noteq> None
         \<Longrightarrow> statusCode (serve e PostEncounters rq d) = 404
             \<and> sent (serve e PostEncounters rq d) = [Serialized (error_body ''Patient not found'')]"
proof -
  let ?x1 = "(incoming PostEncounters rq d)\<lparr>req := (req (incoming PostEncounters rq d))\<lparr>user := Some u\<rparr>\<rparr>"
  let ?x2 = "?x1\<lparr>send_wrappers := (''CREATE'', ''encounter'') # send_wrappers ?x1\<rparr>"
  have "serve e PostEncounters rq d
          = run_chain e [validate EncounterSchema, auditLog ''CREATE'' ''encounter'', post_encounters] ?x1"
    unfolding serve_def chain.simps by (rule gate_pass) (use assms in auto)
  also have "\<dots> = run_chain e [auditLog ''CREATE'' ''encounter'', post_encounters] ?x1"
    by (rule validate_pass) (use assms in simp)
  also have "\<dots> = result (post_encounters e ?x2)"
    by (simp only: auditLog_step run_chain_last)
  finally have s: "serve e PostEncounters rq d = result (post_encounters e ?x2)" .
  let ?k = "parseInt_val (get_prop ''patient_id'' (body rq))"
  have b: "body (req ?x2) = body rq" "db ?x2 = d" "sent ?x2 = []"
    by (simp_all add: incoming_simps)
  have look: "patient_findUnique e ?k d = Inl PrismaError \<or> patient_findUnique e ?k d = Inr None"
    using assms(6) by (cases ?k rule: int_key.cases)
      (auto simp: patient_findUnique_def find_None_conv)
  have fault: "patient_findUnique e ?k d = Inl PrismaError"
    if "db_fault e PatientFindUnique \<or> int_key ?k = None"
    using that by (auto simp: patient_findUnique_def)
  have nofault: "patient_findUnique e ?k d = Inr None"
    if "\<not> db_fault e PatientFindUnique" "int_key ?k \<noteq> None"
    using that look by (auto simp: patient_findUnique_def split: option.splits)
  from look show "db (serve e PostEncounters rq d) = d"
    unfolding s by (auto simp: post_encounters_def Let_def b res_json_error_status)
  show "statusCode (serve e PostEncounters rq d) = 500"
    if "db_fault e PatientFindUnique \<or> int_key ?k = None"
    unfolding s using fault [OF that] by (simp add: post_encounters_def Let_def b)
  show "statusCode (serve e PostEncounters rq d) = 404
      \<and> sent (serve e PostEncounters rq d) = [Serialized (error_body ''Patient not found'')]"
    if "\<not> db_fault e PatientFindUnique" "int_key ?k \<noteq> None"
    unfolding s using nofault [OF that] by (simp add: post_encounters_def Let_def b)
qed

text \<open>
  C9, as the code has it. For a POST /api/encounters whose token verifies to a doctor or
  a nurse and whose body passes the schema, when \<^verbatim>\<open>patient_id\<close> is an integer \<open>n\<close>,
  given as a number or as its decimal numeral, and no patient has the identifier \<open>n\<close>,
  the store is left exactly as it was (no encounter row, no audit entry); the response
  is 404 with the body "Patient not found" when the store answers the lookup, and 500
  when it does not. (Other strings that the schema takes for numbers are cut by
  \<^verbatim>\<open>parseInt\<close> to a different number, or to none.)
\<close>

theorem encounter_missing_patient:
  assumes "cookies_token rq = Some tok" and "tok \<noteq> []" and "jwt_verify e tok = Some u"
    and "role u \<in> {Doctor, Nurse}"
    and "joi e EncounterSchema (body rq) = []"
    and "get_prop ''patient_id'' (body rq) = Js (JNum n)
         \<or> get_prop ''patient_id'' (body rq) = Js (JStr (show_int n))"
    and "\<bar>n\<bar> < 2 ^ 53"
    and "\<forall>p \<in> set (patients d). patient_id p \<noteq> n"
  shows "db (serve e PostEncounters rq d) = d
         \<and> (\<not> db_fault e PatientFindUnique \<longrightarrow>
              statusCode (serve e PostEncounters rq d) = 404
              \<and> sent (serve e PostEncounters rq d) = [Serialized (error_body ''Patient not found'')])
         \<and> (db_fault e PatientFindUnique \<longrightarrow> statusCode (serve e PostEncounters rq d) = 500)"
proof -
  from assms(6) have k: "parseInt_val (get_prop ''patient_id'' (body rq)) = Js (JNum n)"
    using parseInt_show_int [OF assms(7)] by auto
  with assms(8) have none: "\<forall>p \<in> set (patients d).
      parseInt_val (get_prop ''patient_id'' (body rq)) \<noteq> Js (JNum (patient_id p))"
    by auto
  from k have i: "int_key (parseInt_val (get_prop ''patient_id'' (body rq))) \<noteq> None" by simp
  note r = post_encounters_unknown [OF assms(1-5) none]
  from r(1) r(2) r(3) [OF _ i] show ?thesis by blast
qed

text \<open>
  nurse_jane records an encounter for patient 99, whom the clinic does not have; the
  same with the identifier written as the string \<^verbatim>\<open>"99"\<close>.
\<close>

theorem encounter_missing_patient_witness:
  "db (serve clinic_env PostEncounters (request_of (Some ''nurse-token'') None None new_encounter) clinic)
     = clinic
   \<and> statusCode (serve clinic_env PostEncounters
        (request_of (Some ''nurse-token'') None None new_encounter) clinic) = 404
   \<and> sent (serve clinic_env PostEncounters
        (request_of (Some ''nurse-token'') None None new_encounter) clinic)
       = [Serialized (error_body ''Patient not found'')]
   \<and> statusCode (serve clinic_env PostEncounters
        (request_of (Some ''nurse-token'') None None
           (JObj [(''patient_id'', JStr ''99''), (''clinician_role'', JStr ''nurse'')])) clinic) = 404"
proof -
  let ?rq = "request_of (Some ''nurse-token'') None None new_encounter"
  let ?rs = "request_of (Some ''nurse-token'') None None
    (JObj [(''patient_id'', JStr ''99''), (''clinician_role'', JStr ''nurse'')])"
  have h: "cookies_token ?rq = Some ''nurse-token''" "''nurse-token'' \<noteq> []"
    "jwt_verify clinic_env ''nurse-token'' = Some nurse_jane"
    "role nurse_jane \<in> {Doctor, Nurse}"
    "joi clinic_env EncounterSchema (body ?rq) = []"
    by (simp_all add: request_of_def clinic_env_def nurse_jane_def)
  have hs: "cookies_token ?rs = Some ''nurse-token''" "''nurse-token'' \<noteq> []"
    "jwt_verify clinic_env ''nurse-token'' = Some nurse_jane"
    "role nurse_jane \<in> {Doctor, Nurse}"
    "joi clinic_env EncounterSchema (body ?rs) = []"
    by (simp_all add: request_of_def clinic_env_def nurse_jane_def)
  have k: "get_prop ''patient_id'' (body ?rq) = Js (JNum 99)
      \<or> get_prop ''patient_id'' (body ?rq) = Js (JStr (show_int 99))"
    by code_simp
  have ks: "get_prop ''patient_id'' (body ?rs) = Js (JNum 99)
      \<or> get_prop ''patient_id'' (body ?rs) = Js (JStr (show_int 99))"
    by code_simp
  have n: "\<bar>99 :: int\<bar> < 2 ^ 53" by simp
  have none: "\<forall>p \<in> set (patients clinic). patient_id p \<noteq> 99"
    by (simp add: clinic_def jane_doe_def)
  have up: "\<not> db_fault clinic_env PatientFindUnique"
    by (simp add: clinic_env_def)
  from encounter_missing_patient [OF h k n none] encounter_missing_patient [OF hs ks n none] up
  show ?thesis by simp
qed

text \<open>
  C9 as stated fails for a \<^verbatim>\<open>patient_id\<close> that the schema takes for a number and
  \<^verbatim>\<open>parseInt\<close> reads differently. The clinic has patient 1 only. nurse_jane records
  an encounter for \<^verbatim>\<open>"1e2"\<close>, which is the number 100 for the schema and 1 for
  \<^verbatim>\<open>parseInt\<close>: the response is 201, an encounter of patient 1 is inserted and an
  audit entry is written. And for \<^verbatim>\<open>".5"\<close>, from which \<^verbatim>\<open>parseInt\<close> reads no
  number, the response is 500.
\<close>

theorem numeric_string_patient_id_truncated:
  "map patient_id (patients clinic) = [1]
   \<and> get_prop ''patient_id'' new_encounter_1e2 = Js (JStr ''1e2'')
   \<and> joi clinic_env EncounterSchema new_encounter_1e2 = []
   \<and> statusCode (serve clinic_env PostEncounters
        (request_of (Some ''nurse-token'') None None new_encounter_1e2) clinic) = 201
   \<and> map encounter_patient_id (encounters (db (serve clinic_env PostEncounters
        (request_of (Some ''nurse-token'') None None new_encounter_1e2) clinic))) = [1]
   \<and> map entity_type (audit_logs (db (serve clinic_env PostEncounters
        (request_of (Some ''nurse-token'') None None new_encounter_1e2) clinic))) = [''encounter'']
   \<and> statusCode (serve clinic_env PostEncounters
        (request_of (Some ''nurse-token'') None None
           (JObj [(''patient_id'', JStr ''.5''), (''clinician_role'', JStr ''nurse'')])) clinic) = 500"
  by code_simp

end
